theory Spec2Isabelle
  imports Main
begin

section \<open>gsmfunc.cc: function descriptors and call objects of GSM\<close>

text \<open>
  The file defines two classes. A \<open>FuncDescObj\<close> describes one built-in function:
  its entry point, the number of its parameters and, for each parameter, a name, a type
  and a default value. A \<open>CallFunctionObject\<close> is one call being assembled: an array
  with one \<open>Portion*\<close> per parameter and the index of the parameter to be set next.

  The embedding follows the source function by function. What C++ leaves implicit is
  made explicit:
  \<^item> \<open>Portion*\<close> is an optional address; \<open>None\<close> is the null pointer \<open>0\<close>;
  \<^item> the free store is a list of cells, a cell being \<open>None\<close> once it is deleted;
  \<^item> \<open>gerr\<close> is the text written so far;
  \<^item> \<open>assert\<close> aborts unless the file is compiled with \<open>NDEBUG\<close>, so every function
    with an assertion takes the flag \<open>ndebug\<close>;
  \<^item> an array access outside the array, and \<open>delete\<close> or \<open>Copy\<close> through a pointer to no
    live object, have no defined behaviour in C++: the model stops there with
    \<open>UndefinedBehaviour\<close>.
\<close>

subsection \<open>Data\<close>

datatype fault = AssertionFailed | UndefinedBehaviour

text \<open>Outcome of a call: it returns a value in a final state, or stops in the state reached.\<close>

datatype ('a, 's) result = Done 'a 's | Abort fault 's

text \<open>
  \<open>PortionType\<close> is declared in portion.h, which is not among the sources. The
  constructors are the type names gsmfunc.cc uses.
\<close>

datatype PortionType = porERROR | porDOUBLE | porINTEGER | porRATIONAL | porNUMERICAL

type_synonym addr = nat

type_synonym ptr = "addr option"

text \<open>
  Modelled from the spec: \<open>NO_DEFAULT_VALUE\<close> is a macro of gsmfunc.h, which is not among
  the sources; a parameter without a default has an absent default, and
  \<open>ParamDefaultValue\<close> returns the null pointer for it, so the macro is the null pointer.
\<close>

definition NO_DEFAULT_VALUE :: ptr where
  "NO_DEFAULT_VALUE = None"

record ParamInfoType =
  Name :: string
  Type :: PortionType
  DefaultValue :: ptr

text \<open>
  The state outside the two objects: the free store holding the Portions (of contents
  \<open>'v\<close>), the text written to \<open>gerr\<close>, and a log of the calls made to entry points, each
  with the argument array passed and the free store at the moment of the call.
\<close>

record 'v world =
  heap :: "'v option list"
  gerr :: string
  invoked :: "(ptr list \<times> 'v option list) list"

text \<open>
  An entry point \<open>Portion* (*)(Portion**)\<close> reads the argument array, may change the free
  store (it deletes its arguments) and returns a pointer.
\<close>

type_synonym 'v entry = "ptr list \<Rightarrow> 'v option list \<Rightarrow> ptr \<times> 'v option list"

record 'v FuncDescObj =
  function' :: "'v entry"
  num_of_params :: int
  ParamInfo :: "ParamInfoType list"

record 'v CallFunctionObject =
  func_name :: string
  func_desc_obj :: "'v FuncDescObj"
  param :: "ptr list"
  current_param_index :: int

subsection \<open>C++ primitives\<close>

text \<open>\<open>xs[i]\<close> for an \<open>int\<close> index.\<close>

definition subscript :: "'a list \<Rightarrow> int \<Rightarrow> fault + 'a" where
  "subscript xs i =
     (if 0 \<le> i \<and> i < int (length xs) then Inr (xs ! nat i) else Inl UndefinedBehaviour)"

text \<open>\<open>assert(c)\<close> aborts when \<open>c\<close> is false and \<open>NDEBUG\<close> is not defined.\<close>

definition assert_fails :: "bool \<Rightarrow> bool \<Rightarrow> bool" where
  "assert_fails ndebug c = (\<not> ndebug \<and> \<not> c)"

definition live :: "'v option list \<Rightarrow> addr \<Rightarrow> bool" where
  "live h a = (a < length h \<and> h ! a \<noteq> None)"

text \<open>\<open>delete p\<close> for a non-null \<open>p\<close>.\<close>

definition delete :: "'v option list \<Rightarrow> addr \<Rightarrow> fault + 'v option list" where
  "delete h a = (if live h a then Inr (h[a := None]) else Inl UndefinedBehaviour)"

text \<open>
  Modelled from the spec: \<open>Portion::Copy\<close> is declared in portion.h, which is not among the
  sources. Values support an explicit deep-copy operation producing an independent
  instance: the copy is a new object with the contents of the original.
\<close>

definition Copy :: "'v option list \<Rightarrow> addr \<Rightarrow> fault + (ptr \<times> 'v option list)" where
  "Copy h a = (if live h a then Inr (Some (length h), h @ [h ! a]) else Inl UndefinedBehaviour)"

subsection \<open>The texts written to gerr\<close>

definition quote :: string where
  "quote = [CHR 0x22]"

definition newline :: string where
  "newline = [CHR 0x0A]"

definition duplicate_msg :: "string \<Rightarrow> string" where
  "duplicate_msg name =
     ''FuncDescObj Error: multiple parameters of a functions were'' @ newline @
     ''                   declared with the same formal name '' @ quote @
     name @ quote @ newline @
     ''                   during initialization'' @ newline"

definition too_many_msg :: "string \<Rightarrow> string" where
  "too_many_msg fname =
     ''CallFunctionObject Error: too many parameters specified for'' @ newline @
     ''                          function '' @ quote @ fname @ quote @ newline"

definition required_msg :: "string \<Rightarrow> string \<Rightarrow> string" where
  "required_msg pname fname =
     ''GSM Error: required parameter '' @ quote @ pname @ quote @
     '' not found while executing'' @ newline @
     ''           CallFunction() on function '' @ quote @ fname @ quote @ newline"

subsection \<open>FuncDescObj\<close>

text \<open>
  The constructor. \<open>new ParamInfoType[n]\<close> default-constructs \<open>n\<close> elements;
  \<open>ParamInfoType\<close> is declared in gsmfunc.h, which is not among the sources, so the
  default-constructed element is the parameter \<open>blank\<close>.
\<close>

definition FuncDescObj_new ::
  "bool \<Rightarrow> ParamInfoType \<Rightarrow> 'v entry \<Rightarrow> int \<Rightarrow> fault + 'v FuncDescObj" where
  "FuncDescObj_new ndebug blank funcname size' =
     (if assert_fails ndebug (size' \<ge> 0) then Inl AssertionFailed
      else if size' < 0 then Inl UndefinedBehaviour
      else Inr \<lparr>function' = funcname, num_of_params = size',
                ParamInfo = replicate (nat size') blank\<rparr>)"

text \<open>\<open>FuncDescObj::CallFunction\<close>: the call of the entry point, entered into the log.\<close>

definition FuncDescObj_CallFunction ::
  "'v FuncDescObj \<Rightarrow> ptr list \<Rightarrow> 'v world \<Rightarrow> (ptr, 'v world) result" where
  "FuncDescObj_CallFunction f ps w =
     (case function' f ps (heap w) of
        (r, h') \<Rightarrow> Done r (w\<lparr>heap := h', invoked := invoked w @ [(ps, heap w)]\<rparr>))"

definition NumParams :: "'v FuncDescObj \<Rightarrow> int" where
  "NumParams f = num_of_params f"

definition ParamName :: "bool \<Rightarrow> 'v FuncDescObj \<Rightarrow> int \<Rightarrow> fault + string" where
  "ParamName ndebug f index =
     (if assert_fails ndebug (index \<ge> 0 \<and> index < num_of_params f) then Inl AssertionFailed
      else case subscript (ParamInfo f) index of
             Inl e \<Rightarrow> Inl e
           | Inr p \<Rightarrow> Inr (Name p))"

definition ParamType :: "bool \<Rightarrow> 'v FuncDescObj \<Rightarrow> int \<Rightarrow> fault + PortionType" where
  "ParamType ndebug f index =
     (if assert_fails ndebug (index \<ge> 0 \<and> index < num_of_params f) then Inl AssertionFailed
      else case subscript (ParamInfo f) index of
             Inl e \<Rightarrow> Inl e
           | Inr p \<Rightarrow> Inr (Type p))"

definition ParamDefaultValue ::
  "bool \<Rightarrow> 'v FuncDescObj \<Rightarrow> int \<Rightarrow> 'v option list \<Rightarrow> fault + (ptr \<times> 'v option list)" where
  "ParamDefaultValue ndebug f index h =
     (if assert_fails ndebug (index \<ge> 0 \<and> index < num_of_params f) then Inl AssertionFailed
      else case subscript (ParamInfo f) index of
             Inl e \<Rightarrow> Inl e
           | Inr p \<Rightarrow>
               (if DefaultValue p = NO_DEFAULT_VALUE then Inr (None, h)
                else case DefaultValue p of
                       None \<Rightarrow> Inl UndefinedBehaviour
                     | Some a \<Rightarrow> Copy h a))"

text \<open>The loop of \<open>FindParamName\<close>, from \<open>i\<close> on; \<open>-1\<close> when it ends without a match.\<close>

function FindParamName_loop :: "'v FuncDescObj \<Rightarrow> string \<Rightarrow> int \<Rightarrow> fault + int" where
  "FindParamName_loop f name i =
     (if i < num_of_params f then
        (case subscript (ParamInfo f) i of
           Inl e \<Rightarrow> Inl e
         | Inr p \<Rightarrow> if Name p = name then Inr i else FindParamName_loop f name (i + 1))
      else Inr (- 1))"
  by pat_completeness auto
termination
  by (relation "measure (\<lambda>(f, name, i). nat (num_of_params f - i))") auto

definition FuncDescObj_FindParamName :: "'v FuncDescObj \<Rightarrow> string \<Rightarrow> fault + int" where
  "FuncDescObj_FindParamName f name = FindParamName_loop f name 0"

text \<open>The loop of \<open>SetParamInfo\<close>, from \<open>i\<close> on: is \<open>name\<close> the name of some parameter?\<close>

function SetParamInfo_loop :: "'v FuncDescObj \<Rightarrow> string \<Rightarrow> int \<Rightarrow> fault + bool" where
  "SetParamInfo_loop f name i =
     (if i < num_of_params f then
        (case subscript (ParamInfo f) i of
           Inl e \<Rightarrow> Inl e
         | Inr p \<Rightarrow> if Name p = name then Inr True else SetParamInfo_loop f name (i + 1))
      else Inr False)"
  by pat_completeness auto
termination
  by (relation "measure (\<lambda>(f, name, i). nat (num_of_params f - i))") auto

text \<open>
  \<open>SetParamInfo\<close>. The message and the second assertion are inside \<open>#ifndef NDEBUG\<close>.
  On an abort the descriptor is as it was: the three assignments come last.
\<close>

definition SetParamInfo ::
  "bool \<Rightarrow> 'v FuncDescObj \<Rightarrow> int \<Rightarrow> string \<Rightarrow> PortionType \<Rightarrow> ptr \<Rightarrow> 'v world \<Rightarrow>
   (unit, 'v FuncDescObj \<times> 'v world) result" where
  "SetParamInfo ndebug f index name type default_value w =
     (if assert_fails ndebug (index \<ge> 0 \<and> index < num_of_params f)
      then Abort AssertionFailed (f, w)
      else case SetParamInfo_loop f name 0 of
             Inl e \<Rightarrow> Abort e (f, w)
           | Inr repeated_variable_declaration \<Rightarrow>
               (if \<not> ndebug \<and> repeated_variable_declaration
                then Abort AssertionFailed (f, w\<lparr>gerr := gerr w @ duplicate_msg name\<rparr>)
                else if 0 \<le> index \<and> index < int (length (ParamInfo f))
                then Done () (f\<lparr>ParamInfo := (ParamInfo f)
                                  [nat index := \<lparr>Name = name, Type = type,
                                                 DefaultValue = default_value\<rparr>]\<rparr>, w)
                else Abort UndefinedBehaviour (f, w)))"

subsection \<open>CallFunctionObject\<close>

text \<open>The loop of the constructor, from \<open>i\<close> on.\<close>

function CallFunctionObject_loop ::
  "bool \<Rightarrow> 'v FuncDescObj \<Rightarrow> int \<Rightarrow> ptr list \<Rightarrow> 'v option list \<Rightarrow>
   fault + (ptr list \<times> 'v option list)" where
  "CallFunctionObject_loop ndebug f i ps h =
     (if i < NumParams f then
        (case ParamDefaultValue ndebug f i h of
           Inl e \<Rightarrow> Inl e
         | Inr (p, h') \<Rightarrow>
             if 0 \<le> i \<and> i < int (length ps)
             then CallFunctionObject_loop ndebug f (i + 1) (ps[nat i := p]) h'
             else Inl UndefinedBehaviour)
      else Inr (ps, h))"
  by pat_completeness auto
termination
  by (relation "measure (\<lambda>(ndebug, f, i, ps, h). nat (num_of_params f - i))")
     (auto simp: NumParams_def)

text \<open>
  The constructor. The elements of \<open>new Portion*[n]\<close> have no value until the loop has
  assigned them; the loop assigns every one before anything reads it, and the model
  starts them as null.
\<close>

definition CallFunctionObject_new ::
  "bool \<Rightarrow> string \<Rightarrow> 'v FuncDescObj \<Rightarrow> 'v world \<Rightarrow>
   ('v CallFunctionObject, 'v world) result" where
  "CallFunctionObject_new ndebug name func w =
     (if NumParams func < 0 then Abort UndefinedBehaviour w
      else case CallFunctionObject_loop ndebug func 0
                  (replicate (nat (NumParams func)) None) (heap w) of
             Inl e \<Rightarrow> Abort e w
           | Inr (ps, h') \<Rightarrow>
               Done \<lparr>func_name = name, func_desc_obj = func, param = ps,
                     current_param_index = 0\<rparr> (w\<lparr>heap := h'\<rparr>))"

definition GetCurrParamType ::
  "bool \<Rightarrow> 'v CallFunctionObject \<Rightarrow> 'v world \<Rightarrow> (PortionType, 'v world) result" where
  "GetCurrParamType ndebug c w =
     (if current_param_index c < NumParams (func_desc_obj c) then
        (case ParamType ndebug (func_desc_obj c) (current_param_index c) of
           Inl e \<Rightarrow> Abort e w
         | Inr t \<Rightarrow> Done t w)
      else Done porERROR (w\<lparr>gerr := gerr w @ too_many_msg (func_name c)\<rparr>))"

text \<open>
  \<open>SetCurrParam\<close>. The increment cannot overflow: the index is below \<open>NumParams()\<close>,
  itself an \<open>int\<close>.
\<close>

definition SetCurrParam ::
  "'v CallFunctionObject \<Rightarrow> ptr \<Rightarrow> 'v world \<Rightarrow>
   (unit, 'v CallFunctionObject \<times> 'v world) result" where
  "SetCurrParam c new_param w =
     (if current_param_index c < NumParams (func_desc_obj c) then
        (case subscript (param c) (current_param_index c) of
           Inl e \<Rightarrow> Abort e (c, w)
         | Inr old \<Rightarrow>
             (case (case old of None \<Rightarrow> Inr (heap w) | Some a \<Rightarrow> delete (heap w) a) of
                Inl e \<Rightarrow> Abort e (c, w)
              | Inr h' \<Rightarrow>
                  Done () (c\<lparr>param := (param c)[nat (current_param_index c) := new_param],
                             current_param_index := current_param_index c + 1\<rparr>,
                           w\<lparr>heap := h'\<rparr>)))
      else Done () (c, w\<lparr>gerr := gerr w @ too_many_msg (func_name c)\<rparr>))"

definition SetCurrParamIndex :: "'v CallFunctionObject \<Rightarrow> int \<Rightarrow> 'v CallFunctionObject" where
  "SetCurrParamIndex c index = c\<lparr>current_param_index := index\<rparr>"

definition GetCurrParamIndex :: "'v CallFunctionObject \<Rightarrow> int" where
  "GetCurrParamIndex c = current_param_index c"

definition CallFunctionObject_FindParamName ::
  "'v CallFunctionObject \<Rightarrow> string \<Rightarrow> fault + int" where
  "CallFunctionObject_FindParamName c name = FuncDescObj_FindParamName (func_desc_obj c) name"

definition FuncName :: "'v CallFunctionObject \<Rightarrow> string" where
  "FuncName c = func_name c"

text \<open>
  The loop of \<open>CallFunction\<close>, from \<open>i\<close> on, and the call after it. The assertion
  \<open>param[i] != 0\<close> follows the test of the same condition and cannot fail.
\<close>

function CallFunction_loop ::
  "bool \<Rightarrow> 'v CallFunctionObject \<Rightarrow> int \<Rightarrow> 'v world \<Rightarrow> (ptr, 'v world) result" where
  "CallFunction_loop ndebug c i w =
     (if i < NumParams (func_desc_obj c) then
        (case subscript (param c) i of
           Inl e \<Rightarrow> Abort e w
         | Inr p \<Rightarrow>
             if p = None then
               (case ParamName ndebug (func_desc_obj c) i of
                  Inl e \<Rightarrow> Abort e w
                | Inr pname \<Rightarrow>
                    Done None (w\<lparr>gerr := gerr w @ required_msg pname (func_name c)\<rparr>))
             else if assert_fails ndebug (p \<noteq> None) then Abort AssertionFailed w
             else CallFunction_loop ndebug c (i + 1) w)
      else FuncDescObj_CallFunction (func_desc_obj c) (param c) w)"
  by pat_completeness auto
termination
  by (relation "measure (\<lambda>(ndebug, c, i, w). nat (num_of_params (func_desc_obj c) - i))")
     (auto simp: NumParams_def)

definition CallFunctionObject_CallFunction ::
  "bool \<Rightarrow> 'v CallFunctionObject \<Rightarrow> 'v world \<Rightarrow> (ptr, 'v world) result" where
  "CallFunctionObject_CallFunction ndebug c w = CallFunction_loop ndebug c 0 w"

subsection \<open>Well-formed objects\<close>

text \<open>
  The constructor of \<open>FuncDescObj\<close> allocates \<open>num_of_params\<close> elements and nothing
  changes either afterwards; the constructor of \<open>CallFunctionObject\<close> allocates as many
  argument slots.
\<close>

definition wf_FuncDescObj :: "'v FuncDescObj \<Rightarrow> bool" where
  "wf_FuncDescObj f = (0 \<le> num_of_params f \<and> int (length (ParamInfo f)) = num_of_params f)"

definition wf_CallFunctionObject :: "'v CallFunctionObject \<Rightarrow> bool" where
  "wf_CallFunctionObject c =
     (wf_FuncDescObj (func_desc_obj c) \<and>
      int (length (param c)) = num_of_params (func_desc_obj c))"

text \<open>Every default value of the descriptor is a live object of the free store.\<close>

definition defaults_live :: "'v FuncDescObj \<Rightarrow> 'v option list \<Rightarrow> bool" where
  "defaults_live f h =
     list_all (\<lambda>p. case DefaultValue p of None \<Rightarrow> True | Some a \<Rightarrow> live h a) (ParamInfo f)"

text \<open>The contents of the object a pointer points to, if any.\<close>

definition deref :: "'v option list \<Rightarrow> ptr \<Rightarrow> 'v option" where
  "deref h p = (case p of None \<Rightarrow> None | Some a \<Rightarrow> if a < length h then h ! a else None)"

text \<open>The index of the first null slot (the number of slots, if there is none).\<close>

definition first_empty :: "ptr list \<Rightarrow> nat" where
  "first_empty ps = length (takeWhile (\<lambda>p. p \<noteq> None) ps)"

text \<open>
  A slot \<open>p\<close> is seeded from the default \<open>d\<close>: it is null when there is no default, and
  otherwise points to an object allocated after the free store \<open>h0\<close> whose contents in
  \<open>h\<close> are those of the default in \<open>h0\<close>.
\<close>

definition slot_seeded :: "'v option list \<Rightarrow> 'v option list \<Rightarrow> ptr \<Rightarrow> ptr \<Rightarrow> bool" where
  "slot_seeded h0 h d p =
     (case d of
        None \<Rightarrow> p = None
      | Some a \<Rightarrow>
          (case p of
             None \<Rightarrow> False
           | Some a' \<Rightarrow> length h0 \<le> a' \<and> a' < length h \<and> h ! a' = h0 ! a))"

subsection \<open>Example objects\<close>

text \<open>
  Objects for the closed instances below: an entry point that returns null and leaves the
  free store as it is, a default-constructed \<open>ParamInfoType\<close>, a descriptor with the
  parameters a and b whose defaults are the objects at addresses 0 and 1, a free store
  holding 1, 2 and 5, and call objects on that descriptor.
\<close>

definition stub :: "int entry" where
  "stub ps h = (None, h)"

definition blank_info :: ParamInfoType where
  "blank_info = \<lparr>Name = [], Type = porERROR, DefaultValue = NO_DEFAULT_VALUE\<rparr>"

definition desc_ab :: "int FuncDescObj" where
  "desc_ab = \<lparr>function' = stub, num_of_params = 2,
     ParamInfo = [\<lparr>Name = ''a'', Type = porINTEGER, DefaultValue = Some 0\<rparr>,
                  \<lparr>Name = ''b'', Type = porINTEGER, DefaultValue = Some 1\<rparr>]\<rparr>"

definition world_ab :: "int world" where
  "world_ab = \<lparr>heap = [Some 1, Some 2, Some 5], gerr = [], invoked = []\<rparr>"

definition call_ab :: "ptr list \<Rightarrow> int \<Rightarrow> int CallFunctionObject" where
  "call_ab ps i = \<lparr>func_name = ''f'', func_desc_obj = desc_ab, param = ps,
                   current_param_index = i\<rparr>"

section \<open>Properties\<close>

declare FindParamName_loop.simps [simp del]
declare SetParamInfo_loop.simps [simp del]
declare CallFunctionObject_loop.simps [simp del]
declare CallFunction_loop.simps [simp del]

subsection \<open>Accesses within range\<close>

lemma subscript_in_range:
  "0 \<le> i \<Longrightarrow> i < int (length xs) \<Longrightarrow> subscript xs i = Inr (xs ! nat i)"
  by (simp add: subscript_def)

lemma ParamName_in_range:
  "wf_FuncDescObj f \<Longrightarrow> 0 \<le> i \<Longrightarrow> i < num_of_params f \<Longrightarrow>
   ParamName ndebug f i = Inr (Name (ParamInfo f ! nat i))"
  by (simp add: ParamName_def assert_fails_def subscript_def wf_FuncDescObj_def)

lemma ParamType_in_range:
  "wf_FuncDescObj f \<Longrightarrow> 0 \<le> i \<Longrightarrow> i < num_of_params f \<Longrightarrow>
   ParamType ndebug f i = Inr (Type (ParamInfo f ! nat i))"
  by (simp add: ParamType_def assert_fails_def subscript_def wf_FuncDescObj_def)

subsection \<open>Looking a parameter up by name\<close>

lemma FindParamName_loop_none:
  "wf_FuncDescObj f \<Longrightarrow> 0 \<le> i \<Longrightarrow>
   (\<forall>j. i \<le> j \<and> j < num_of_params f \<longrightarrow> Name (ParamInfo f ! nat j) \<noteq> name) \<Longrightarrow>
   FindParamName_loop f name i = Inr (- 1)"
proof (induction f name i rule: FindParamName_loop.induct)
  case (1 f name i)
  show ?case
  proof (cases "i < num_of_params f")
    case True
    with "1.prems" have sub: "subscript (ParamInfo f) i = Inr (ParamInfo f ! nat i)"
      by (simp add: subscript_def wf_FuncDescObj_def)
    from True "1.prems" have ne: "Name (ParamInfo f ! nat i) \<noteq> name" by simp
    have "FindParamName_loop f name (i + 1) = Inr (- 1)"
      using "1.IH"[OF True sub ne] "1.prems" by simp
    with True sub ne show ?thesis
      by (subst FindParamName_loop.simps) simp
  next
    case False
    then show ?thesis by (subst FindParamName_loop.simps) simp
  qed
qed

lemma FindParamName_loop_found:
  "wf_FuncDescObj f \<Longrightarrow> 0 \<le> i \<Longrightarrow> i \<le> k \<Longrightarrow> k < num_of_params f \<Longrightarrow>
   Name (ParamInfo f ! nat k) = name \<Longrightarrow>
   (\<forall>j. i \<le> j \<and> j < k \<longrightarrow> Name (ParamInfo f ! nat j) \<noteq> name) \<Longrightarrow>
   FindParamName_loop f name i = Inr k"
proof (induction f name i rule: FindParamName_loop.induct)
  case (1 f name i)
  from "1.prems" have lt: "i < num_of_params f" by simp
  with "1.prems" have sub: "subscript (ParamInfo f) i = Inr (ParamInfo f ! nat i)"
    by (simp add: subscript_def wf_FuncDescObj_def)
  show ?case
  proof (cases "i = k")
    case True
    with lt sub "1.prems" show ?thesis
      by (subst FindParamName_loop.simps) simp
  next
    case False
    with "1.prems" have ne: "Name (ParamInfo f ! nat i) \<noteq> name" by simp
    have "FindParamName_loop f name (i + 1) = Inr k"
      using "1.IH"[OF lt sub ne] "1.prems" False by simp
    with lt sub ne show ?thesis
      by (subst FindParamName_loop.simps) simp
  qed
qed

lemma FindParamName_least:
  assumes wf: "wf_FuncDescObj f" and mem: "name \<in> set (map Name (ParamInfo f))"
  shows "\<exists>k < length (ParamInfo f). FuncDescObj_FindParamName f name = Inr (int k) \<and>
           Name (ParamInfo f ! k) = name \<and> (\<forall>j < k. Name (ParamInfo f ! j) \<noteq> name)"
proof -
  define P where "P = (\<lambda>k. k < length (ParamInfo f) \<and> Name (ParamInfo f ! k) = name)"
  from mem obtain k0 where "P k0"
    by (auto simp: P_def in_set_conv_nth)
  define k where "k = (LEAST k. P k)"
  have Pk: "P k" unfolding k_def using \<open>P k0\<close> by (rule LeastI)
  have least: "\<And>j. j < k \<Longrightarrow> \<not> P j" unfolding k_def by (rule not_less_Least)
  have lt: "k < length (ParamInfo f)" and nm: "Name (ParamInfo f ! k) = name"
    using Pk by (simp_all add: P_def)
  have below: "\<forall>j < k. Name (ParamInfo f ! j) \<noteq> name"
    using least lt by (auto simp: P_def)
  have "FindParamName_loop f name 0 = Inr (int k)"
  proof (rule FindParamName_loop_found[OF wf])
    show "int k < num_of_params f" using wf lt by (simp add: wf_FuncDescObj_def)
    show "Name (ParamInfo f ! nat (int k)) = name" using nm by simp
    show "\<forall>j. 0 \<le> j \<and> j < int k \<longrightarrow> Name (ParamInfo f ! nat j) \<noteq> name"
      using below by (auto simp: nat_less_iff)
  qed simp_all
  with lt nm below show ?thesis
    by (auto simp: FuncDescObj_FindParamName_def)
qed

lemma FindParamName_absent:
  assumes wf: "wf_FuncDescObj f" and nmem: "name \<notin> set (map Name (ParamInfo f))"
  shows "FuncDescObj_FindParamName f name = Inr (- 1)"
proof -
  have "\<forall>j. 0 \<le> j \<and> j < num_of_params f \<longrightarrow> Name (ParamInfo f ! nat j) \<noteq> name"
  proof (intro allI impI)
    fix j assume "0 \<le> j \<and> j < num_of_params f"
    with wf have "nat j < length (ParamInfo f)" by (simp add: wf_FuncDescObj_def nat_less_iff)
    then have "Name (ParamInfo f ! nat j) \<in> set (map Name (ParamInfo f))" by simp
    with nmem show "Name (ParamInfo f ! nat j) \<noteq> name" by metis
  qed
  with wf show ?thesis
    by (simp add: FuncDescObj_FindParamName_def FindParamName_loop_none)
qed

text \<open>
  Claim C9. On a well-formed descriptor \<open>FindParamName\<close> returns \<open>-1\<close>, and no error, for
  a name that no parameter has, and the first index holding the name otherwise; with the
  parameters x, y, z the index of y is 1; and the \<open>FindParamName\<close> of a call object
  returns what the \<open>FindParamName\<close> of its descriptor returns.
\<close>

theorem FindParamName_index:
  assumes "wf_FuncDescObj f"
  shows "(name \<notin> set (map Name (ParamInfo f)) \<longrightarrow>
            FuncDescObj_FindParamName f name = Inr (- 1)) \<and>
         (name \<in> set (map Name (ParamInfo f)) \<longrightarrow>
            (\<exists>k < length (ParamInfo f).
               FuncDescObj_FindParamName f name = Inr (int k) \<and>
               Name (ParamInfo f ! k) = name \<and>
               (\<forall>j < k. Name (ParamInfo f ! j) \<noteq> name))) \<and>
         (map Name (ParamInfo f) = [''x'', ''y'', ''z''] \<longrightarrow>
            FuncDescObj_FindParamName f ''y'' = Inr 1) \<and>
         CallFunctionObject_FindParamName c name =
           FuncDescObj_FindParamName (func_desc_obj c) name"
proof (intro conjI impI)
  assume xyz: "map Name (ParamInfo f) = [''x'', ''y'', ''z'']"
  then have len: "length (ParamInfo f) = 3"
    by (metis length_map length_Cons list.size(3) numeral_3_eq_3)
  have n0: "Name (ParamInfo f ! 0) = ''x''" and n1: "Name (ParamInfo f ! 1) = ''y''"
    using xyz len by (metis nth_map nth_Cons_0 zero_less_numeral, metis nth_map nth_Cons_0 One_nat_def nth_Cons_Suc one_less_numeral_iff semiring_norm(77))
  have "FindParamName_loop f ''y'' 0 = Inr 1"
  proof (rule FindParamName_loop_found[OF assms])
    show "1 < num_of_params f" using assms len by (simp add: wf_FuncDescObj_def)
    show "Name (ParamInfo f ! nat 1) = ''y''" using n1 by simp
    show "\<forall>j. 0 \<le> j \<and> j < 1 \<longrightarrow> Name (ParamInfo f ! nat j) \<noteq> ''y''"
    proof (intro allI impI)
      fix j :: int assume "0 \<le> j \<and> j < 1"
      then have "j = 0" by simp
      with n0 show "Name (ParamInfo f ! nat j) \<noteq> ''y''" by simp
    qed
  qed simp_all
  then show "FuncDescObj_FindParamName f ''y'' = Inr 1"
    by (simp add: FuncDescObj_FindParamName_def)
qed (simp_all add: FindParamName_absent[OF assms] FindParamName_least[OF assms]
       CallFunctionObject_FindParamName_def)

theorem FindParamName_index_witness:
  "wf_FuncDescObj \<lparr>function' = (\<lambda>ps h. (None, h :: int option list)), num_of_params = 3,
      ParamInfo = [\<lparr>Name = ''x'', Type = porDOUBLE, DefaultValue = None\<rparr>,
                   \<lparr>Name = ''y'', Type = porINTEGER, DefaultValue = None\<rparr>,
                   \<lparr>Name = ''z'', Type = porNUMERICAL, DefaultValue = None\<rparr>]\<rparr> \<and>
   FuncDescObj_FindParamName \<lparr>function' = (\<lambda>ps h. (None, h :: int option list)), num_of_params = 3,
      ParamInfo = [\<lparr>Name = ''x'', Type = porDOUBLE, DefaultValue = None\<rparr>,
                   \<lparr>Name = ''y'', Type = porINTEGER, DefaultValue = None\<rparr>,
                   \<lparr>Name = ''z'', Type = porNUMERICAL, DefaultValue = None\<rparr>]\<rparr> ''y'' = Inr 1 \<and>
   FuncDescObj_FindParamName \<lparr>function' = (\<lambda>ps h. (None, h :: int option list)), num_of_params = 3,
      ParamInfo = [\<lparr>Name = ''x'', Type = porDOUBLE, DefaultValue = None\<rparr>,
                   \<lparr>Name = ''y'', Type = porINTEGER, DefaultValue = None\<rparr>,
                   \<lparr>Name = ''z'', Type = porNUMERICAL, DefaultValue = None\<rparr>]\<rparr> ''w'' = Inr (- 1)"
proof -
  let ?f = "\<lparr>function' = (\<lambda>ps h. (None, h :: int option list)), num_of_params = 3,
      ParamInfo = [\<lparr>Name = ''x'', Type = porDOUBLE, DefaultValue = None\<rparr>,
                   \<lparr>Name = ''y'', Type = porINTEGER, DefaultValue = None\<rparr>,
                   \<lparr>Name = ''z'', Type = porNUMERICAL, DefaultValue = None\<rparr>]\<rparr>"
  have h: "wf_FuncDescObj ?f" by (simp add: wf_FuncDescObj_def)
  show ?thesis
    using h FindParamName_index[OF h, where name = "''y''"
            and c = "\<lparr>func_name = ''f'', func_desc_obj = ?f, param = [], current_param_index = 0\<rparr>"]
      FindParamName_index[OF h, where name = "''w''"
            and c = "\<lparr>func_name = ''f'', func_desc_obj = ?f, param = [], current_param_index = 0\<rparr>"]
    by simp
qed

subsection \<open>Moving the cursor\<close>

text \<open>
  Claim C8. \<open>SetCurrParamIndex\<close> sets the current index to the given integer, whatever
  it is and without any check, and changes nothing else; \<open>GetCurrParamIndex\<close> then
  returns that integer.
\<close>

theorem SetCurrParamIndex_GetCurrParamIndex:
  "GetCurrParamIndex (SetCurrParamIndex c index) = index \<and>
   current_param_index (SetCurrParamIndex c index) = index \<and>
   param (SetCurrParamIndex c index) = param c \<and>
   func_desc_obj (SetCurrParamIndex c index) = func_desc_obj c \<and>
   func_name (SetCurrParamIndex c index) = func_name c"
  by (simp add: SetCurrParamIndex_def GetCurrParamIndex_def)

subsection \<open>Declaring parameters\<close>

lemma SetParamInfo_loop_True:
  "wf_FuncDescObj f \<Longrightarrow> 0 \<le> i \<Longrightarrow> i \<le> int k \<Longrightarrow> k < length (ParamInfo f) \<Longrightarrow>
   Name (ParamInfo f ! k) = name \<Longrightarrow> SetParamInfo_loop f name i = Inr True"
proof (induction f name i rule: SetParamInfo_loop.induct)
  case (1 f name i)
  from "1.prems" have lt: "i < num_of_params f"
    by (simp add: wf_FuncDescObj_def)
  from "1.prems" have sub: "subscript (ParamInfo f) i = Inr (ParamInfo f ! nat i)"
    by (simp add: subscript_in_range)
  show ?case
  proof (cases "Name (ParamInfo f ! nat i) = name")
    case True
    with lt sub show ?thesis by (subst SetParamInfo_loop.simps) simp
  next
    case False
    with "1.prems" have "nat i \<noteq> k" by auto
    with "1.prems" have le: "i + 1 \<le> int k" by simp
    have "SetParamInfo_loop f name (i + 1) = Inr True"
      using "1.IH"[OF lt sub False] "1.prems" le by simp
    with lt sub False show ?thesis by (subst SetParamInfo_loop.simps) simp
  qed
qed

lemma SetParamInfo_loop_False:
  "wf_FuncDescObj f \<Longrightarrow> 0 \<le> i \<Longrightarrow>
   (\<forall>j. nat i \<le> j \<and> j < length (ParamInfo f) \<longrightarrow> Name (ParamInfo f ! j) \<noteq> name) \<Longrightarrow>
   SetParamInfo_loop f name i = Inr False"
proof (induction f name i rule: SetParamInfo_loop.induct)
  case (1 f name i)
  show ?case
  proof (cases "i < num_of_params f")
    case True
    with "1.prems" have sub: "subscript (ParamInfo f) i = Inr (ParamInfo f ! nat i)"
      by (simp add: subscript_in_range wf_FuncDescObj_def)
    from True "1.prems" have ne: "Name (ParamInfo f ! nat i) \<noteq> name"
      by (simp add: wf_FuncDescObj_def nat_less_iff)
    have "SetParamInfo_loop f name (i + 1) = Inr False"
      using "1.IH"[OF True sub ne] "1.prems" by (simp add: nat_add_distrib)
    with True sub ne show ?thesis by (subst SetParamInfo_loop.simps) simp
  next
    case False
    then show ?thesis by (subst SetParamInfo_loop.simps) simp
  qed
qed

lemma SetParamInfo_loop_repeated:
  assumes "wf_FuncDescObj f"
  shows "SetParamInfo_loop f name 0 = Inr (name \<in> set (map Name (ParamInfo f)))"
proof (cases "name \<in> set (map Name (ParamInfo f))")
  case True
  then obtain k where "k < length (ParamInfo f)" "Name (ParamInfo f ! k) = name"
    by (auto simp: in_set_conv_nth)
  with assms True show ?thesis
    by (simp add: SetParamInfo_loop_True[where k = k])
next
  case False
  then have "\<forall>j. nat 0 \<le> j \<and> j < length (ParamInfo f) \<longrightarrow> Name (ParamInfo f ! j) \<noteq> name"
    by (metis nth_mem length_map nth_map)
  with assms False show ?thesis
    by (simp add: SetParamInfo_loop_False)
qed

lemma SetParamInfo_fresh_name:
  assumes "wf_FuncDescObj f" "0 \<le> index" "index < num_of_params f"
    and "ndebug \<or> name \<notin> set (map Name (ParamInfo f))"
  shows "SetParamInfo ndebug f index name type default_value w =
     Done () (f\<lparr>ParamInfo := (ParamInfo f)
                [nat index := \<lparr>Name = name, Type = type, DefaultValue = default_value\<rparr>]\<rparr>, w)"
  using assms
  by (auto simp: SetParamInfo_def assert_fails_def SetParamInfo_loop_repeated wf_FuncDescObj_def)

text \<open>
  Claim C1, as amended: in a build without \<open>NDEBUG\<close>, \<open>SetParamInfo\<close> on a well-formed
  descriptor, with an index in range and a name that some parameter of the descriptor
  already has, writes the message about the repeated name and aborts on the assertion
  before any of its three assignments: the descriptor is as it was.
\<close>

theorem SetParamInfo_duplicate_debug:
  assumes "wf_FuncDescObj f" and "0 \<le> index" and "index < num_of_params f"
    and "name \<in> set (map Name (ParamInfo f))"
  shows "SetParamInfo False f index name type default_value w =
           Abort AssertionFailed (f, w\<lparr>gerr := gerr w @ duplicate_msg name\<rparr>)"
  using assms
  by (simp add: SetParamInfo_def assert_fails_def SetParamInfo_loop_repeated)

theorem SetParamInfo_duplicate_debug_witness:
  "wf_FuncDescObj desc_ab \<and> (0::int) \<le> 1 \<and> 1 < num_of_params desc_ab \<and>
   ''a'' \<in> set (map Name (ParamInfo desc_ab)) \<and>
   SetParamInfo False desc_ab 1 ''a'' porDOUBLE None world_ab =
     Abort AssertionFailed (desc_ab, world_ab\<lparr>gerr := duplicate_msg ''a''\<rparr>)"
proof -
  have h1: "wf_FuncDescObj desc_ab" by (simp add: wf_FuncDescObj_def desc_ab_def)
  have h2: "(0::int) \<le> 1" by simp
  have h3: "1 < num_of_params desc_ab" by (simp add: desc_ab_def)
  have h4: "''a'' \<in> set (map Name (ParamInfo desc_ab))" by (simp add: desc_ab_def)
  have "gerr world_ab = []" by (simp add: world_ab_def)
  with SetParamInfo_duplicate_debug[OF h1 h2 h3 h4, of porDOUBLE None world_ab] h1 h2 h3 h4
  show ?thesis by simp
qed

text \<open>
  Claim C1 as stated fails in a build with \<open>NDEBUG\<close>: the message and the assertion are
  compiled out, nothing is written to \<open>gerr\<close>, and the entry at index 1, which held b,
  is overwritten with the repeated name a, the new type and the new default.
\<close>

theorem SetParamInfo_duplicate_release_counterexample:
  "wf_FuncDescObj desc_ab \<and> ''a'' \<in> set (map Name (ParamInfo desc_ab)) \<and>
   ParamInfo desc_ab ! 1 = \<lparr>Name = ''b'', Type = porINTEGER, DefaultValue = Some 1\<rparr> \<and>
   SetParamInfo True desc_ab 1 ''a'' porDOUBLE None world_ab =
     Done () (desc_ab\<lparr>ParamInfo :=
                 [\<lparr>Name = ''a'', Type = porINTEGER, DefaultValue = Some 0\<rparr>,
                  \<lparr>Name = ''a'', Type = porDOUBLE, DefaultValue = None\<rparr>]\<rparr>, world_ab)"
proof -
  have h1: "wf_FuncDescObj desc_ab" by (simp add: wf_FuncDescObj_def desc_ab_def)
  have "SetParamInfo True desc_ab 1 ''a'' porDOUBLE None world_ab =
     Done () (desc_ab\<lparr>ParamInfo := (ParamInfo desc_ab)
        [nat 1 := \<lparr>Name = ''a'', Type = porDOUBLE, DefaultValue = None\<rparr>]\<rparr>, world_ab)"
    by (rule SetParamInfo_fresh_name[OF h1]) (simp_all add: desc_ab_def)
  with h1 show ?thesis by (simp add: desc_ab_def)
qed

text \<open>
  Claim C7 fails on the code. The comment at the head of gsmfunc.cc says that a parameter
  of type \<open>porNUMERICAL\<close> cannot have a default value, but \<open>SetParamInfo\<close> stores the
  type and the default it is given without comparing them. On a new descriptor with one
  parameter, in either build, the declaration of n with type \<open>porNUMERICAL\<close> and a
  default that is not null succeeds and leaves a parameter of type \<open>porNUMERICAL\<close> with
  a default.
\<close>

theorem SetParamInfo_numerical_default:
  "FuncDescObj_new ndebug blank_info stub 1 =
     Inr \<lparr>function' = stub, num_of_params = 1, ParamInfo = [blank_info]\<rparr> \<and>
   SetParamInfo ndebug \<lparr>function' = stub, num_of_params = 1, ParamInfo = [blank_info]\<rparr>
       0 ''n'' porNUMERICAL (Some 0) world_ab =
     Done () (\<lparr>function' = stub, num_of_params = 1,
               ParamInfo = [\<lparr>Name = ''n'', Type = porNUMERICAL, DefaultValue = Some 0\<rparr>]\<rparr>,
              world_ab)"
proof -
  have h1: "wf_FuncDescObj \<lparr>function' = stub, num_of_params = 1, ParamInfo = [blank_info]\<rparr>"
    by (simp add: wf_FuncDescObj_def)
  have "SetParamInfo ndebug \<lparr>function' = stub, num_of_params = 1, ParamInfo = [blank_info]\<rparr>
       0 ''n'' porNUMERICAL (Some 0) world_ab =
     Done () (\<lparr>function' = stub, num_of_params = 1, ParamInfo = [blank_info]\<rparr>
        \<lparr>ParamInfo := (ParamInfo \<lparr>function' = stub, num_of_params = 1, ParamInfo = [blank_info]\<rparr>)
        [nat 0 := \<lparr>Name = ''n'', Type = porNUMERICAL, DefaultValue = Some 0\<rparr>]\<rparr>, world_ab)"
    by (rule SetParamInfo_fresh_name[OF h1]) (simp_all add: blank_info_def)
  then show ?thesis by (simp add: FuncDescObj_new_def assert_fails_def)
qed

subsection \<open>Executing a call\<close>

lemma CallFunction_loop_missing:
  "wf_CallFunctionObject c \<Longrightarrow> 0 \<le> i \<Longrightarrow> i \<le> int k \<Longrightarrow> k < length (param c) \<Longrightarrow>
   param c ! k = None \<Longrightarrow> (\<forall>j. nat i \<le> j \<and> j < k \<longrightarrow> param c ! j \<noteq> None) \<Longrightarrow>
   CallFunction_loop ndebug c i w =
     Done None (w\<lparr>gerr := gerr w @
        required_msg (Name (ParamInfo (func_desc_obj c) ! k)) (func_name c)\<rparr>)"
proof (induction ndebug c i w rule: CallFunction_loop.induct)
  case (1 ndebug c i w)
  from "1.prems" have wf: "wf_FuncDescObj (func_desc_obj c)"
    and len: "int (length (param c)) = num_of_params (func_desc_obj c)"
    by (simp_all add: wf_CallFunctionObject_def)
  from "1.prems" len have lt: "i < NumParams (func_desc_obj c)"
    by (simp add: NumParams_def)
  from "1.prems" have sub: "subscript (param c) i = Inr (param c ! nat i)"
    by (simp add: subscript_in_range)
  show ?case
  proof (cases "nat i = k")
    case True
    with "1.prems" have ik: "i = int k" by simp
    have pn: "ParamName ndebug (func_desc_obj c) i = Inr (Name (ParamInfo (func_desc_obj c) ! k))"
      using ParamName_in_range[OF wf, of i ndebug] lt "1.prems" ik
      by (simp add: NumParams_def)
    from lt sub pn True "1.prems" show ?thesis
      by (subst CallFunction_loop.simps) simp
  next
    case False
    with "1.prems" have ne: "param c ! nat i \<noteq> None" and le: "i + 1 \<le> int k"
      by auto
    have na: "\<not> assert_fails ndebug (param c ! nat i \<noteq> None)"
      using ne by (simp add: assert_fails_def)
    have "CallFunction_loop ndebug c (i + 1) w =
            Done None (w\<lparr>gerr := gerr w @
              required_msg (Name (ParamInfo (func_desc_obj c) ! k)) (func_name c)\<rparr>)"
      using "1.IH"[OF lt sub ne na] "1.prems" le by (simp add: nat_add_distrib)
    with lt sub ne na show ?thesis
      by (subst CallFunction_loop.simps) auto
  qed
qed

lemma CallFunction_loop_filled:
  "wf_CallFunctionObject c \<Longrightarrow> 0 \<le> i \<Longrightarrow>
   (\<forall>j. nat i \<le> j \<and> j < length (param c) \<longrightarrow> param c ! j \<noteq> None) \<Longrightarrow>
   CallFunction_loop ndebug c i w = FuncDescObj_CallFunction (func_desc_obj c) (param c) w"
proof (induction ndebug c i w rule: CallFunction_loop.induct)
  case (1 ndebug c i w)
  from "1.prems" have len: "int (length (param c)) = num_of_params (func_desc_obj c)"
    by (simp add: wf_CallFunctionObject_def)
  show ?case
  proof (cases "i < NumParams (func_desc_obj c)")
    case True
    with "1.prems" len have sub: "subscript (param c) i = Inr (param c ! nat i)"
      by (simp add: subscript_in_range NumParams_def)
    from True "1.prems" len have ne: "param c ! nat i \<noteq> None"
      by (simp add: NumParams_def nat_less_iff)
    have na: "\<not> assert_fails ndebug (param c ! nat i \<noteq> None)"
      using ne by (simp add: assert_fails_def)
    have "CallFunction_loop ndebug c (i + 1) w =
            FuncDescObj_CallFunction (func_desc_obj c) (param c) w"
      using "1.IH"[OF True sub ne na] "1.prems" by (simp add: nat_add_distrib)
    with True sub ne na show ?thesis
      by (subst CallFunction_loop.simps) auto
  next
    case False
    then show ?thesis by (subst CallFunction_loop.simps) simp
  qed
qed

lemma first_empty_props:
  "None \<in> set ps \<Longrightarrow>
   first_empty ps < length ps \<and> ps ! first_empty ps = None \<and>
   (\<forall>j < first_empty ps. ps ! j \<noteq> None)"
  unfolding first_empty_def
  by (induction ps) (auto simp: nth_Cons split: nat.splits)

text \<open>
  Claim C2. For a well-formed call object with a null slot, \<open>CallFunction\<close> writes the
  message naming the parameter of the first null slot and the function, returns null and
  does not call the entry point: the log of calls and the free store are as before.
\<close>

theorem CallFunction_missing_parameter:
  assumes "wf_CallFunctionObject c" and "None \<in> set (param c)"
  shows "CallFunctionObject_CallFunction ndebug c w =
           Done None (w\<lparr>gerr := gerr w @
              required_msg (Name (ParamInfo (func_desc_obj c) ! first_empty (param c)))
                           (func_name c)\<rparr>) \<and>
         first_empty (param c) < length (param c) \<and>
         param c ! first_empty (param c) = None \<and>
         (\<forall>j < first_empty (param c). param c ! j \<noteq> None) \<and>
         (\<forall>r w'. CallFunctionObject_CallFunction ndebug c w = Done r w' \<longrightarrow>
                  r = None \<and> invoked w' = invoked w \<and> heap w' = heap w \<and>
                  (invoked w = [] \<longrightarrow> length (invoked w') = 0))"
proof -
  note fe = first_empty_props[OF assms(2)]
  have "CallFunction_loop ndebug c 0 w =
          Done None (w\<lparr>gerr := gerr w @
              required_msg (Name (ParamInfo (func_desc_obj c) ! first_empty (param c)))
                           (func_name c)\<rparr>)"
    by (rule CallFunction_loop_missing[OF assms(1)]) (use fe in simp_all)
  with fe show ?thesis
    by (simp add: CallFunctionObject_CallFunction_def)
qed

theorem CallFunction_missing_parameter_witness:
  "wf_CallFunctionObject (call_ab [Some 3, None] 1) \<and>
   None \<in> set (param (call_ab [Some 3, None] 1)) \<and>
   CallFunctionObject_CallFunction False (call_ab [Some 3, None] 1) world_ab =
     Done None (world_ab\<lparr>gerr := required_msg ''b'' ''f''\<rparr>) \<and>
   invoked (world_ab\<lparr>gerr := required_msg ''b'' ''f''\<rparr>) = []"
proof -
  have h1: "wf_CallFunctionObject (call_ab [Some 3, None] 1)"
    by (simp add: wf_CallFunctionObject_def wf_FuncDescObj_def call_ab_def desc_ab_def)
  have h2: "None \<in> set (param (call_ab [Some 3, None] 1))"
    by (simp add: call_ab_def)
  have fe: "first_empty (param (call_ab [Some 3, None] 1)) = 1"
    by (simp add: first_empty_def call_ab_def)
  have nm: "Name (ParamInfo (func_desc_obj (call_ab [Some 3, None] 1)) ! 1) = ''b''"
    by (simp add: call_ab_def desc_ab_def)
  have fn: "func_name (call_ab [Some 3, None] 1) = ''f''"
    by (simp add: call_ab_def)
  have g: "gerr world_ab = []" and i: "invoked world_ab = []"
    by (simp_all add: world_ab_def)
  from CallFunction_missing_parameter[OF h1 h2, of False world_ab]
  have "CallFunctionObject_CallFunction False (call_ab [Some 3, None] 1) world_ab =
          Done None (world_ab\<lparr>gerr := gerr world_ab @
            required_msg (Name (ParamInfo (func_desc_obj (call_ab [Some 3, None] 1)) !
                                first_empty (param (call_ab [Some 3, None] 1))))
                         (func_name (call_ab [Some 3, None] 1))\<rparr>)"
    by (rule conjunct1)
  then have "CallFunctionObject_CallFunction False (call_ab [Some 3, None] 1) world_ab =
          Done None (world_ab\<lparr>gerr := required_msg ''b'' ''f''\<rparr>)"
    unfolding fe nm fn g by simp
  with h1 h2 i show ?thesis by simp
qed

subsection \<open>More arguments than parameters\<close>

text \<open>
  Claim C5. With the current index at or past the number of parameters,
  \<open>GetCurrParamType\<close> writes the message and returns \<open>porERROR\<close>, and \<open>SetCurrParam\<close>
  writes the message and leaves the call object, with its slots and its current index, and
  the free store as they were.
\<close>

theorem TooManyParameters_no_change:
  assumes "NumParams (func_desc_obj c) \<le> current_param_index c"
  shows "GetCurrParamType ndebug c w =
           Done porERROR (w\<lparr>gerr := gerr w @ too_many_msg (func_name c)\<rparr>) \<and>
         SetCurrParam c new_param w =
           Done () (c, w\<lparr>gerr := gerr w @ too_many_msg (func_name c)\<rparr>)"
  using assms by (simp add: GetCurrParamType_def SetCurrParam_def)

theorem TooManyParameters_no_change_witness:
  "NumParams (func_desc_obj (call_ab [Some 3, Some 4] 2)) \<le>
     current_param_index (call_ab [Some 3, Some 4] 2) \<and>
   GetCurrParamType False (call_ab [Some 3, Some 4] 2) world_ab =
     Done porERROR (world_ab\<lparr>gerr := too_many_msg ''f''\<rparr>) \<and>
   SetCurrParam (call_ab [Some 3, Some 4] 2) (Some 2) world_ab =
     Done () (call_ab [Some 3, Some 4] 2, world_ab\<lparr>gerr := too_many_msg ''f''\<rparr>)"
proof -
  have h: "NumParams (func_desc_obj (call_ab [Some 3, Some 4] 2)) \<le>
             current_param_index (call_ab [Some 3, Some 4] 2)"
    by (simp add: NumParams_def call_ab_def desc_ab_def)
  have "gerr world_ab = []" "func_name (call_ab [Some 3, Some 4] 2) = ''f''"
    by (simp_all add: world_ab_def call_ab_def)
  with h TooManyParameters_no_change[OF h, of False world_ab "Some 2"]
  show ?thesis by simp
qed

subsection \<open>A function without parameters\<close>

lemma CallFunctionObject_loop_done:
  "\<not> i < NumParams f \<Longrightarrow> CallFunctionObject_loop ndebug f i ps h = Inr (ps, h)"
  by (subst CallFunctionObject_loop.simps) simp

text \<open>
  Claim C10. The descriptor constructed with zero parameters has no parameter entries;
  the call object constructed from it has no slots and leaves the world as it is; and
  \<open>CallFunction\<close> on that call object calls the entry point with the empty argument
  array, writes nothing to \<open>gerr\<close> and returns what the entry point returns.
\<close>

theorem zero_parameters_call:
  "FuncDescObj_new ndebug blank fn 0 =
     Inr \<lparr>function' = fn, num_of_params = 0, ParamInfo = []\<rparr> \<and>
   CallFunctionObject_new ndebug name \<lparr>function' = fn, num_of_params = 0, ParamInfo = []\<rparr> w =
     Done \<lparr>func_name = name,
           func_desc_obj = \<lparr>function' = fn, num_of_params = 0, ParamInfo = []\<rparr>,
           param = [], current_param_index = 0\<rparr> w \<and>
   CallFunctionObject_CallFunction ndebug
       \<lparr>func_name = name,
        func_desc_obj = \<lparr>function' = fn, num_of_params = 0, ParamInfo = []\<rparr>,
        param = [], current_param_index = 0\<rparr> w =
     Done (fst (fn [] (heap w)))
          (w\<lparr>heap := snd (fn [] (heap w)), invoked := invoked w @ [([], heap w)]\<rparr>) \<and>
   gerr (w\<lparr>heap := snd (fn [] (heap w)), invoked := invoked w @ [([], heap w)]\<rparr>) = gerr w"
proof (intro conjI)
  show "FuncDescObj_new ndebug blank fn 0 =
          Inr \<lparr>function' = fn, num_of_params = 0, ParamInfo = []\<rparr>"
    by (simp add: FuncDescObj_new_def assert_fails_def)
  show "CallFunctionObject_new ndebug name
          \<lparr>function' = fn, num_of_params = 0, ParamInfo = []\<rparr> w =
        Done \<lparr>func_name = name,
              func_desc_obj = \<lparr>function' = fn, num_of_params = 0, ParamInfo = []\<rparr>,
              param = [], current_param_index = 0\<rparr> w"
    by (simp add: CallFunctionObject_new_def NumParams_def CallFunctionObject_loop_done)
  show "CallFunctionObject_CallFunction ndebug
       \<lparr>func_name = name,
        func_desc_obj = \<lparr>function' = fn, num_of_params = 0, ParamInfo = []\<rparr>,
        param = [], current_param_index = 0\<rparr> w =
     Done (fst (fn [] (heap w)))
          (w\<lparr>heap := snd (fn [] (heap w)), invoked := invoked w @ [([], heap w)]\<rparr>)"
    by (subst CallFunctionObject_CallFunction_def, subst CallFunction_loop.simps)
       (simp add: NumParams_def FuncDescObj_CallFunction_def split: prod.splits)
qed simp

subsection \<open>Default values\<close>

lemma ParamDefaultValue_None:
  "wf_FuncDescObj f \<Longrightarrow> 0 \<le> i \<Longrightarrow> i < num_of_params f \<Longrightarrow>
   DefaultValue (ParamInfo f ! nat i) = None \<Longrightarrow>
   ParamDefaultValue ndebug f i h = Inr (None, h)"
  by (simp add: ParamDefaultValue_def assert_fails_def subscript_def wf_FuncDescObj_def
        NO_DEFAULT_VALUE_def)

lemma ParamDefaultValue_Some:
  "wf_FuncDescObj f \<Longrightarrow> 0 \<le> i \<Longrightarrow> i < num_of_params f \<Longrightarrow>
   DefaultValue (ParamInfo f ! nat i) = Some a \<Longrightarrow> live h a \<Longrightarrow>
   ParamDefaultValue ndebug f i h = Inr (Some (length h), h @ [h ! a])"
  by (simp add: ParamDefaultValue_def assert_fails_def subscript_def wf_FuncDescObj_def
        NO_DEFAULT_VALUE_def Copy_def)

text \<open>
  Claim C6. For an index in range of a well-formed descriptor, \<open>ParamDefaultValue\<close>
  returns null when the parameter has no default. Otherwise it returns a new object: its
  address is not that of the stored default and held no object before, its contents are
  those of the stored default, an assignment to either object leaves the other as it was,
  and a later call, made after the first copy was assigned to, returns yet another object
  that still has the contents of the stored default and is independent of the first copy.
\<close>

theorem ParamDefaultValue_independent_copy:
  assumes "wf_FuncDescObj f" and "0 \<le> index" and "index < num_of_params f"
  shows "(DefaultValue (ParamInfo f ! nat index) = NO_DEFAULT_VALUE \<longrightarrow>
            ParamDefaultValue ndebug f index h = Inr (None, h)) \<and>
         (\<forall>a. DefaultValue (ParamInfo f ! nat index) = Some a \<and> live h a \<longrightarrow>
            ParamDefaultValue ndebug f index h = Inr (Some (length h), h @ [h ! a]) \<and>
            length h \<noteq> a \<and> \<not> live h (length h) \<and>
            live (h @ [h ! a]) (length h) \<and>
            (h @ [h ! a]) ! length h = h ! a \<and>
            (h @ [h ! a]) ! a = h ! a \<and>
            (\<forall>x. ((h @ [h ! a])[length h := x]) ! a = h ! a) \<and>
            (\<forall>x. ((h @ [h ! a])[a := x]) ! length h = h ! a) \<and>
            (\<forall>x. ParamDefaultValue ndebug f index ((h @ [h ! a])[length h := x]) =
                   Inr (Some (length h + 1), (h @ [h ! a])[length h := x] @ [h ! a])) \<and>
            (\<forall>x y. ((((h @ [h ! a])[length h := x]) @ [h ! a])[length h + 1 := y]) ! length h = x))"
proof (intro conjI allI impI)
  assume "DefaultValue (ParamInfo f ! nat index) = NO_DEFAULT_VALUE"
  with assms show "ParamDefaultValue ndebug f index h = Inr (None, h)"
    by (simp add: ParamDefaultValue_None NO_DEFAULT_VALUE_def)
next
  fix a
  assume a: "DefaultValue (ParamInfo f ! nat index) = Some a \<and> live h a"
  then have lt: "a < length h" and so: "h ! a \<noteq> None" by (simp_all add: live_def)
  from a assms show "ParamDefaultValue ndebug f index h = Inr (Some (length h), h @ [h ! a])"
    by (simp add: ParamDefaultValue_Some)
  show "length h \<noteq> a" using lt by simp
  show "\<not> live h (length h)" by (simp add: live_def)
  show "live (h @ [h ! a]) (length h)" using so by (simp add: live_def)
  show "(h @ [h ! a]) ! length h = h ! a" by simp
  show "(h @ [h ! a]) ! a = h ! a" using lt by (simp add: nth_append)
  fix x
  show "((h @ [h ! a])[length h := x]) ! a = h ! a" using lt by (simp add: nth_append)
  show "((h @ [h ! a])[a := x]) ! length h = h ! a" using lt by (simp add: nth_append list_update_append)
  have l2: "live ((h @ [h ! a])[length h := x]) a" using lt so by (simp add: live_def nth_append)
  have "ParamDefaultValue ndebug f index ((h @ [h ! a])[length h := x]) =
        Inr (Some (length ((h @ [h ! a])[length h := x])),
             (h @ [h ! a])[length h := x] @ [((h @ [h ! a])[length h := x]) ! a])"
    using a assms l2 by (simp only: ParamDefaultValue_Some)
  then show "ParamDefaultValue ndebug f index ((h @ [h ! a])[length h := x]) =
                   Inr (Some (length h + 1), (h @ [h ! a])[length h := x] @ [h ! a])"
    using lt by (simp add: nth_append)
  fix y
  show "((((h @ [h ! a])[length h := x]) @ [h ! a])[length h + 1 := y]) ! length h = x"
    by (simp add: nth_append list_update_append)
qed

theorem ParamDefaultValue_independent_copy_witness:
  "wf_FuncDescObj desc_ab \<and> (0::int) \<le> 1 \<and> 1 < num_of_params desc_ab \<and>
   DefaultValue (ParamInfo desc_ab ! nat 1) = Some 1 \<and> live (heap world_ab) 1 \<and>
   ParamDefaultValue False desc_ab 1 (heap world_ab) =
     Inr (Some 3, [Some 1, Some 2, Some 5, Some 2]) \<and>
   ParamDefaultValue False desc_ab 1 [Some 1, Some 2, Some 5, Some 7] =
     Inr (Some 4, [Some 1, Some 2, Some 5, Some 7, Some 2])"
proof -
  have h1: "wf_FuncDescObj desc_ab" by (simp add: wf_FuncDescObj_def desc_ab_def)
  have h2: "(0::int) \<le> 1" by simp
  have h3: "1 < num_of_params desc_ab" by (simp add: desc_ab_def)
  have d: "DefaultValue (ParamInfo desc_ab ! nat 1) = Some 1" by (simp add: desc_ab_def)
  have l: "live (heap world_ab) 1" by (simp add: live_def world_ab_def)
  have hp: "heap world_ab = [Some 1, Some 2, Some 5]" by (simp add: world_ab_def)
  from ParamDefaultValue_independent_copy[OF h1 h2 h3, where h = "heap world_ab" and ndebug = False] d l
  have "ParamDefaultValue False desc_ab 1 (heap world_ab) =
          Inr (Some (length (heap world_ab)), heap world_ab @ [heap world_ab ! 1]) \<and>
        (\<forall>x. ParamDefaultValue False desc_ab 1
                ((heap world_ab @ [heap world_ab ! 1])[length (heap world_ab) := x]) =
              Inr (Some (length (heap world_ab) + 1),
                   (heap world_ab @ [heap world_ab ! 1])[length (heap world_ab) := x] @
                   [heap world_ab ! 1]))"
    by blast
  then have "ParamDefaultValue False desc_ab 1 (heap world_ab) =
          Inr (Some (length (heap world_ab)), heap world_ab @ [heap world_ab ! 1]) \<and>
        ParamDefaultValue False desc_ab 1
                ((heap world_ab @ [heap world_ab ! 1])[length (heap world_ab) := Some 7]) =
              Inr (Some (length (heap world_ab) + 1),
                   (heap world_ab @ [heap world_ab ! 1])[length (heap world_ab) := Some 7] @
                   [heap world_ab ! 1])"
    by blast
  then have "ParamDefaultValue False desc_ab 1 (heap world_ab) =
               Inr (Some 3, [Some 1, Some 2, Some 5, Some 2]) \<and>
             ParamDefaultValue False desc_ab 1 [Some 1, Some 2, Some 5, Some 7] =
               Inr (Some 4, [Some 1, Some 2, Some 5, Some 7, Some 2])"
    unfolding hp by simp
  with h1 h2 h3 d l show ?thesis by blast
qed

subsection \<open>Constructing a call object\<close>

lemma slot_seeded_grow:
  "slot_seeded h0 h d p \<Longrightarrow> slot_seeded h0 (h @ xs) d p"
  by (auto simp: slot_seeded_def nth_append split: option.splits)

lemma slot_seeded_bound:
  "slot_seeded h0 h d p \<Longrightarrow> p = Some a \<Longrightarrow> a < length h"
  by (auto simp: slot_seeded_def split: option.splits)

lemma defaults_live_nth:
  "defaults_live f h \<Longrightarrow> j < length (ParamInfo f) \<Longrightarrow>
   DefaultValue (ParamInfo f ! j) = Some a \<Longrightarrow> live h a"
  by (auto simp: defaults_live_def list_all_length split: option.splits)

lemma live_extend:
  "live h0 a \<Longrightarrow> length h0 \<le> length h \<Longrightarrow> take (length h0) h = h0 \<Longrightarrow>
   live h a \<and> h ! a = h0 ! a"
proof -
  assume l: "live h0 a" and le: "length h0 \<le> length h" and t: "take (length h0) h = h0"
  from l have lt: "a < length h0" by (simp add: live_def)
  have "take (length h0) h ! a = h ! a" using lt by simp
  with t have "h ! a = h0 ! a" by simp
  with l lt le show ?thesis by (simp add: live_def)
qed

lemma CallFunctionObject_loop_seeds:
  "wf_FuncDescObj f \<Longrightarrow> defaults_live f h0 \<Longrightarrow> 0 \<le> i \<Longrightarrow> i \<le> num_of_params f \<Longrightarrow>
   length ps = length (ParamInfo f) \<Longrightarrow>
   length h0 \<le> length h \<Longrightarrow> take (length h0) h = h0 \<Longrightarrow>
   (\<forall>j < nat i. slot_seeded h0 h (DefaultValue (ParamInfo f ! j)) (ps ! j)) \<Longrightarrow>
   distinct (filter (\<lambda>p. p \<noteq> None) (take (nat i) ps)) \<Longrightarrow>
   \<exists>ps' h'. CallFunctionObject_loop ndebug f i ps h = Inr (ps', h') \<and>
     length ps' = length ps \<and> length h0 \<le> length h' \<and> take (length h0) h' = h0 \<and>
     (\<forall>j < length ps. slot_seeded h0 h' (DefaultValue (ParamInfo f ! j)) (ps' ! j)) \<and>
     distinct (filter (\<lambda>p. p \<noteq> None) ps')"
proof (induction ndebug f i ps h rule: CallFunctionObject_loop.induct)
  case (1 ndebug f i ps h)
  note wf = "1.prems"(1) and dl = "1.prems"(2) and i0 = "1.prems"(3) and ile = "1.prems"(4)
    and lps = "1.prems"(5) and hle = "1.prems"(6) and htk = "1.prems"(7)
    and sd = "1.prems"(8) and ds = "1.prems"(9)
  from wf lps have len: "int (length ps) = num_of_params f"
    by (simp add: wf_FuncDescObj_def)
  show ?case
  proof (cases "i < NumParams f")
    case False
    with ile len have "nat i = length ps" by (simp add: NumParams_def)
    with sd ds hle htk False show ?thesis
      by (subst CallFunctionObject_loop.simps) simp
  next
    case True
    then have lt: "i < num_of_params f" by (simp add: NumParams_def)
    with i0 len have ni: "nat i < length ps" by simp
    have rng: "0 \<le> i \<and> i < int (length ps)" using lt len i0 by simp
    have i1: "0 \<le> i + 1" and i1le: "i + 1 \<le> num_of_params f" using i0 lt by simp_all
    have nat1: "nat (i + 1) = Suc (nat i)" using i0 by (simp add: nat_add_distrib)
    have tk: "take (Suc (nat i)) (ps[nat i := q]) = take (nat i) ps @ [q]" for q
      using ni by (simp add: take_Suc_conv_app_nth)
    have old: "\<forall>p \<in> set (take (nat i) ps). \<forall>a. p = Some a \<longrightarrow> a < length h"
    proof (intro ballI allI impI)
      fix p a assume "p \<in> set (take (nat i) ps)" and pa: "p = Some a"
      then obtain j where j: "j < nat i" and "ps ! j = p"
        using ni by (auto simp: in_set_conv_nth)
      with sd pa have "slot_seeded h0 h (DefaultValue (ParamInfo f ! j)) (Some a)" by auto
      then show "a < length h" by (rule slot_seeded_bound) simp
    qed
    show ?thesis
    proof (cases "DefaultValue (ParamInfo f ! nat i)")
      case None
      have pdv: "ParamDefaultValue ndebug f i h = Inr (None, h)"
        using wf i0 lt None by (simp add: ParamDefaultValue_None)
      have seeded: "\<forall>j < nat (i + 1).
          slot_seeded h0 h (DefaultValue (ParamInfo f ! j)) (ps[nat i := None] ! j)"
      proof (intro allI impI)
        fix j assume "j < nat (i + 1)"
        with nat1 have "j < nat i \<or> j = nat i" by auto
        then show "slot_seeded h0 h (DefaultValue (ParamInfo f ! j)) (ps[nat i := None] ! j)"
        proof
          assume "j < nat i"
          with sd show ?thesis by simp
        next
          assume "j = nat i"
          with None ni show ?thesis by (simp add: slot_seeded_def)
        qed
      qed
      have dist: "distinct (filter (\<lambda>p. p \<noteq> None) (take (nat (i + 1)) (ps[nat i := None])))"
        using ds tk[of None] nat1 by simp
      have lps': "length (ps[nat i := None]) = length (ParamInfo f)" using lps by simp
      from "1.IH"[OF True pdv refl rng wf dl i1 i1le lps' hle htk seeded dist]
      obtain ps' h' where
        "CallFunctionObject_loop ndebug f (i + 1) (ps[nat i := None]) h = Inr (ps', h')"
        "length ps' = length ps" "length h0 \<le> length h'" "take (length h0) h' = h0"
        "\<forall>j < length ps. slot_seeded h0 h' (DefaultValue (ParamInfo f ! j)) (ps' ! j)"
        "distinct (filter (\<lambda>p. p \<noteq> None) ps')"
        by auto
      with True pdv rng show ?thesis
        by (subst CallFunctionObject_loop.simps) simp
    next
      case (Some a)
      have la0: "live h0 a"
        using dl ni lps Some by (auto intro: defaults_live_nth)
      from live_extend[OF la0 hle htk] have la: "live h a" and ha: "h ! a = h0 ! a"
        by simp_all
      have pdv: "ParamDefaultValue ndebug f i h = Inr (Some (length h), h @ [h ! a])"
        using wf i0 lt Some la by (simp add: ParamDefaultValue_Some)
      have seeded: "\<forall>j < nat (i + 1).
          slot_seeded h0 (h @ [h ! a]) (DefaultValue (ParamInfo f ! j))
            (ps[nat i := Some (length h)] ! j)"
      proof (intro allI impI)
        fix j assume "j < nat (i + 1)"
        with nat1 have "j < nat i \<or> j = nat i" by auto
        then show "slot_seeded h0 (h @ [h ! a]) (DefaultValue (ParamInfo f ! j))
            (ps[nat i := Some (length h)] ! j)"
        proof
          assume "j < nat i"
          with sd show ?thesis by (simp add: slot_seeded_grow)
        next
          assume "j = nat i"
          with Some ni ha hle show ?thesis by (simp add: slot_seeded_def)
        qed
      qed
      have "Some (length h) \<notin> set (take (nat i) ps)" using old by blast
      then have dist: "distinct (filter (\<lambda>p. p \<noteq> None)
                         (take (nat (i + 1)) (ps[nat i := Some (length h)])))"
        using ds tk[of "Some (length h)"] nat1 by simp
      have ext: "take (length h0) (h @ [h ! a]) = h0" using hle htk by simp
      have hle': "length h0 \<le> length (h @ [h ! a])" using hle by simp
      have lps': "length (ps[nat i := Some (length h)]) = length (ParamInfo f)"
        using lps by simp
      from "1.IH"[OF True pdv refl rng wf dl i1 i1le lps' hle' ext seeded dist]
      obtain ps' h' where
        "CallFunctionObject_loop ndebug f (i + 1) (ps[nat i := Some (length h)]) (h @ [h ! a]) =
           Inr (ps', h')"
        "length ps' = length ps" "length h0 \<le> length h'" "take (length h0) h' = h0"
        "\<forall>j < length ps. slot_seeded h0 h' (DefaultValue (ParamInfo f ! j)) (ps' ! j)"
        "distinct (filter (\<lambda>p. p \<noteq> None) ps')"
        by auto
      with True pdv rng show ?thesis
        by (subst CallFunctionObject_loop.simps) simp
    qed
  qed
qed

lemma slot_seeded_deref:
  "slot_seeded h0 h d p \<Longrightarrow> deref h0 d = Some v \<Longrightarrow> deref h p = Some v \<and> p \<noteq> None"
  by (cases d; cases p) (simp_all add: slot_seeded_def deref_def split: if_splits)

lemma FuncDescObj_CallFunction_result:
  "FuncDescObj_CallFunction f ps w =
     Done (fst (function' f ps (heap w)))
          (w\<lparr>heap := snd (function' f ps (heap w)), invoked := invoked w @ [(ps, heap w)]\<rparr>)"
  by (cases "function' f ps (heap w)") (simp add: FuncDescObj_CallFunction_def)


lemma seeded_all_deref:
  assumes len: "length ps = length infos"
    and sd: "\<forall>i < length infos. slot_seeded h0 h (DefaultValue (infos ! i)) (ps ! i)"
    and vs: "map (\<lambda>p. deref h0 (DefaultValue p)) infos = map Some vs"
  shows "map (deref h) ps = map Some vs \<and> None \<notin> set ps"
proof -
  have "length (map (\<lambda>p. deref h0 (DefaultValue p)) infos) = length (map Some vs)"
    by (simp only: vs)
  then have lv: "length vs = length infos" by simp
  have each: "deref h (ps ! i) = Some (vs ! i) \<and> ps ! i \<noteq> None" if i: "i < length infos" for i
  proof -
    have "map (\<lambda>p. deref h0 (DefaultValue p)) infos ! i = map Some vs ! i"
      by (simp only: vs)
    with i lv have d: "deref h0 (DefaultValue (infos ! i)) = Some (vs ! i)" by simp
    from sd i have "slot_seeded h0 h (DefaultValue (infos ! i)) (ps ! i)" by blast
    then show ?thesis using d by (rule slot_seeded_deref)
  qed
  have "map (deref h) ps = map Some vs"
  proof (rule nth_equalityI)
    show "length (map (deref h) ps) = length (map Some vs)" using len lv by simp
  next
    fix i assume "i < length (map (deref h) ps)"
    then have "i < length infos" using len by simp
    with each[of i] len lv show "map (deref h) ps ! i = map Some vs ! i" by simp
  qed
  moreover have "None \<notin> set ps"
  proof
    assume "None \<in> set ps"
    then obtain i where "i < length ps" "ps ! i = None" by (auto simp: in_set_conv_nth)
    with each[of i] len show False by simp
  qed
  ultimately show ?thesis by simp
qed


lemma CallFunction_all_filled:
  assumes "wf_CallFunctionObject c" and "None \<notin> set (param c)"
  shows "CallFunctionObject_CallFunction ndebug c w =
           Done (fst (function' (func_desc_obj c) (param c) (heap w)))
                (w\<lparr>heap := snd (function' (func_desc_obj c) (param c) (heap w)),
                   invoked := invoked w @ [(param c, heap w)]\<rparr>)"
proof -
  have "\<forall>j. nat 0 \<le> j \<and> j < length (param c) \<longrightarrow> param c ! j \<noteq> None"
  proof (intro allI impI)
    fix j assume "nat 0 \<le> j \<and> j < length (param c)"
    then have "param c ! j \<in> set (param c)" by simp
    with assms(2) show "param c ! j \<noteq> None" by (cases "param c ! j") simp_all
  qed
  then have "CallFunction_loop ndebug c 0 w =
               FuncDescObj_CallFunction (func_desc_obj c) (param c) w"
    by (intro CallFunction_loop_filled[OF assms(1)]) simp_all
  then have eq: "CallFunctionObject_CallFunction ndebug c w =
               FuncDescObj_CallFunction (func_desc_obj c) (param c) w"
    by (simp add: CallFunctionObject_CallFunction_def)
  show ?thesis
    unfolding eq by (rule FuncDescObj_CallFunction_result)
qed


lemma CallFunctionObject_new_seeds:
  assumes wf: "wf_FuncDescObj f" and dl: "defaults_live f (heap w)"
  shows "\<exists>ps h'. CallFunctionObject_new ndebug name f w =
            Done \<lparr>func_name = name, func_desc_obj = f, param = ps, current_param_index = 0\<rparr>
                 (w\<lparr>heap := h'\<rparr>) \<and>
           length ps = length (ParamInfo f) \<and>
           length (heap w) \<le> length h' \<and> take (length (heap w)) h' = heap w \<and>
           (\<forall>i < length (ParamInfo f).
              slot_seeded (heap w) h' (DefaultValue (ParamInfo f ! i)) (ps ! i)) \<and>
           distinct (filter (\<lambda>p. p \<noteq> None) ps)"
proof -
  let ?ps0 = "replicate (nat (NumParams f)) None :: ptr list"
  have l0: "length ?ps0 = length (ParamInfo f)"
    using wf by (auto simp: NumParams_def wf_FuncDescObj_def)
  have n0: "0 \<le> num_of_params f" using wf by (simp add: wf_FuncDescObj_def)
  have "\<exists>ps h'. CallFunctionObject_loop ndebug f 0 ?ps0 (heap w) = Inr (ps, h') \<and>
     length ps = length ?ps0 \<and> length (heap w) \<le> length h' \<and>
     take (length (heap w)) h' = heap w \<and>
     (\<forall>j < length ?ps0. slot_seeded (heap w) h' (DefaultValue (ParamInfo f ! j)) (ps ! j)) \<and>
     distinct (filter (\<lambda>p. p \<noteq> None) ps)"
    by (rule CallFunctionObject_loop_seeds[OF wf dl order_refl n0 l0 order_refl]) simp_all
  then obtain ps h' where
    lp: "CallFunctionObject_loop ndebug f 0 ?ps0 (heap w) = Inr (ps, h')" and
    rest: "length ps = length ?ps0" "length (heap w) \<le> length h'"
      "take (length (heap w)) h' = heap w"
      "\<forall>j < length ?ps0. slot_seeded (heap w) h' (DefaultValue (ParamInfo f ! j)) (ps ! j)"
      "distinct (filter (\<lambda>p. p \<noteq> None) ps)"
    by blast
  have "CallFunctionObject_new ndebug name f w =
          Done \<lparr>func_name = name, func_desc_obj = f, param = ps, current_param_index = 0\<rparr>
               (w\<lparr>heap := h'\<rparr>)"
    using lp n0 by (simp add: CallFunctionObject_new_def NumParams_def)
  with rest l0 show ?thesis by (intro exI[of _ ps] exI[of _ h']) simp
qed

text \<open>
  Claim C3. For a well-formed descriptor whose defaults are live objects, the constructor
  of \<open>CallFunctionObject\<close> returns a call object with the given name and descriptor, the
  current index 0 and one slot per parameter; it writes nothing and calls nothing; it
  only adds objects to the free store; every slot is seeded from the default of its
  parameter, and the copies are pairwise distinct. When the two defaults hold 1 and 2,
  \<open>CallFunction\<close> on the new call object is the call of the entry point of the
  descriptor on the slots, which hold 1 and 2: it returns what the entry point returns
  on them, leaves the free store as the entry point leaves it, and enters that one call
  into the log.
\<close>

theorem CallFunctionObject_seeds_defaults:
  assumes "wf_FuncDescObj f" and "defaults_live f (heap w)"
  shows "\<exists>c w'. CallFunctionObject_new ndebug name f w = Done c w' \<and>
           func_name c = name \<and> func_desc_obj c = f \<and> current_param_index c = 0 \<and>
           length (param c) = length (ParamInfo f) \<and>
           gerr w' = gerr w \<and> invoked w' = invoked w \<and>
           length (heap w) \<le> length (heap w') \<and>
           take (length (heap w)) (heap w') = heap w \<and>
           (\<forall>i < length (ParamInfo f).
              slot_seeded (heap w) (heap w') (DefaultValue (ParamInfo f ! i)) (param c ! i)) \<and>
           distinct (filter (\<lambda>p. p \<noteq> None) (param c)) \<and>
           (map (\<lambda>p. deref (heap w) (DefaultValue p)) (ParamInfo f) = [Some 1, Some (2::int)] \<longrightarrow>
              CallFunctionObject_CallFunction ndebug c w' =
                Done (fst (function' f (param c) (heap w')))
                     (w'\<lparr>heap := snd (function' f (param c) (heap w')),
                         invoked := invoked w @ [(param c, heap w')]\<rparr>) \<and>
              map (deref (heap w')) (param c) = [Some 1, Some 2])"
proof -
  from CallFunctionObject_new_seeds[OF assms, of ndebug name]
  obtain ps h' where
    new: "CallFunctionObject_new ndebug name f w =
            Done \<lparr>func_name = name, func_desc_obj = f, param = ps, current_param_index = 0\<rparr>
                 (w\<lparr>heap := h'\<rparr>)" and
    len: "length ps = length (ParamInfo f)" and
    ext: "length (heap w) \<le> length h'" "take (length (heap w)) h' = heap w" and
    sd: "\<forall>i < length (ParamInfo f).
              slot_seeded (heap w) h' (DefaultValue (ParamInfo f ! i)) (ps ! i)" and
    ds: "distinct (filter (\<lambda>p. p \<noteq> None) ps)"
    by blast
  let ?c = "\<lparr>func_name = name, func_desc_obj = f, param = ps, current_param_index = 0\<rparr>"
  let ?w = "w\<lparr>heap := h'\<rparr>"
  have wfc: "wf_CallFunctionObject ?c"
    using assms(1) len by (simp add: wf_CallFunctionObject_def wf_FuncDescObj_def)
  have ex: "CallFunctionObject_CallFunction ndebug ?c ?w =
                Done (fst (function' f (param ?c) (heap ?w)))
                     (?w\<lparr>heap := snd (function' f (param ?c) (heap ?w)),
                         invoked := invoked w @ [(param ?c, heap ?w)]\<rparr>) \<and>
              map (deref (heap ?w)) (param ?c) = [Some 1, Some 2]"
    if vs: "map (\<lambda>p. deref (heap w) (DefaultValue p)) (ParamInfo f) = [Some 1, Some (2::int)]"
  proof -
    from vs have "map (\<lambda>p. deref (heap w) (DefaultValue p)) (ParamInfo f) = map Some [1, 2]"
      by simp
    from seeded_all_deref[OF len sd this]
    have m: "map (deref h') ps = [Some 1, Some 2]" and nn: "None \<notin> set (param ?c)" by simp_all
    from CallFunction_all_filled[OF wfc nn, of ndebug ?w] m show ?thesis by simp
  qed
  have fields: "func_name ?c = name" "func_desc_obj ?c = f" "current_param_index ?c = 0"
    "param ?c = ps" "gerr ?w = gerr w" "invoked ?w = invoked w" "heap ?w = h'"
    by simp_all
  show ?thesis
    apply (rule exI[of _ ?c], rule exI[of _ ?w])
    apply (intro conjI impI)
    using new len ext sd ds ex fields by simp_all
qed

lemma desc_ab_wf: "wf_FuncDescObj desc_ab"
  by (simp add: wf_FuncDescObj_def desc_ab_def)

lemma desc_ab_live: "defaults_live desc_ab (heap world_ab)"
  by (simp add: defaults_live_def desc_ab_def world_ab_def live_def)

lemma desc_ab_defaults:
  "map (\<lambda>p. deref (heap world_ab) (DefaultValue p)) (ParamInfo desc_ab) = [Some 1, Some 2]"
  by (simp add: desc_ab_def world_ab_def deref_def)

lemma ParamDefaultValue_ab:
  "ParamDefaultValue ndebug desc_ab 0 [Some 1, Some 2, Some 5] =
     Inr (Some 3, [Some 1, Some 2, Some 5, Some 1])"
  "ParamDefaultValue ndebug desc_ab 1 [Some 1, Some 2, Some 5, Some 1] =
     Inr (Some 4, [Some 1, Some 2, Some 5, Some 1, Some 2])"
  by (simp_all add: ParamDefaultValue_def assert_fails_def subscript_def desc_ab_def
        NO_DEFAULT_VALUE_def Copy_def live_def)

lemma CallFunctionObject_new_ab:
  "CallFunctionObject_new ndebug ''f'' desc_ab world_ab =
     Done (call_ab [Some 3, Some 4] 0)
          (world_ab\<lparr>heap := [Some 1, Some 2, Some 5, Some 1, Some 2]\<rparr>)"
proof -
  have n: "NumParams desc_ab = 2" by (simp add: NumParams_def desc_ab_def)
  have "CallFunctionObject_loop ndebug desc_ab 0 [None, None] [Some 1, Some 2, Some 5] =
          Inr ([Some 3, Some 4], [Some 1, Some 2, Some 5, Some 1, Some 2])"
    apply (subst CallFunctionObject_loop.simps)
    apply (simp add: n ParamDefaultValue_ab)
    apply (subst CallFunctionObject_loop.simps)
    apply (simp add: n ParamDefaultValue_ab)
    apply (subst CallFunctionObject_loop.simps)
    apply (simp add: n)
    done
  then show ?thesis
    by (simp add: CallFunctionObject_new_def n call_ab_def world_ab_def numeral_2_eq_2)
qed

theorem CallFunctionObject_seeds_defaults_witness:
  "wf_FuncDescObj desc_ab \<and> defaults_live desc_ab (heap world_ab) \<and>
   map (\<lambda>p. deref (heap world_ab) (DefaultValue p)) (ParamInfo desc_ab) = [Some 1, Some 2] \<and>
   CallFunctionObject_new False ''f'' desc_ab world_ab =
     Done (call_ab [Some 3, Some 4] 0)
          (world_ab\<lparr>heap := [Some 1, Some 2, Some 5, Some 1, Some 2]\<rparr>) \<and>
   CallFunctionObject_CallFunction False (call_ab [Some 3, Some 4] 0)
       (world_ab\<lparr>heap := [Some 1, Some 2, Some 5, Some 1, Some 2]\<rparr>) =
     Done None
       (world_ab\<lparr>heap := [Some 1, Some 2, Some 5, Some 1, Some 2],
          invoked := [([Some 3, Some 4], [Some 1, Some 2, Some 5, Some 1, Some 2])]\<rparr>) \<and>
   map (deref [Some (1::int), Some 2, Some 5, Some 1, Some 2]) [Some 3, Some 4] =
     [Some 1, Some 2]"
proof -
  let ?c0 = "call_ab [Some 3, Some 4] 0"
  let ?w0 = "world_ab\<lparr>heap := [Some 1, Some 2, Some 5, Some 1, Some 2]\<rparr>"
  from CallFunctionObject_seeds_defaults[OF desc_ab_wf desc_ab_live, of False "''f''"]
  obtain c w' where
    new: "CallFunctionObject_new False ''f'' desc_ab world_ab = Done c w'" and
    ex: "map (\<lambda>p. deref (heap world_ab) (DefaultValue p)) (ParamInfo desc_ab) =
           [Some 1, Some 2] \<longrightarrow>
         CallFunctionObject_CallFunction False c w' =
           Done (fst (function' desc_ab (param c) (heap w')))
                (w'\<lparr>heap := snd (function' desc_ab (param c) (heap w')),
                    invoked := invoked world_ab @ [(param c, heap w')]\<rparr>) \<and>
         map (deref (heap w')) (param c) = [Some 1, Some 2]"
    by (elim exE conjE) (rule that, assumption+)
  from new have c: "c = ?c0" and w: "w' = ?w0"
    by (simp_all add: CallFunctionObject_new_ab)
  from ex desc_ab_defaults
  have "CallFunctionObject_CallFunction False c w' =
           Done (fst (function' desc_ab (param c) (heap w')))
                (w'\<lparr>heap := snd (function' desc_ab (param c) (heap w')),
                    invoked := invoked world_ab @ [(param c, heap w')]\<rparr>) \<and>
         map (deref (heap w')) (param c) = [Some 1, Some 2]"
    by (rule mp)
  then have both: "CallFunctionObject_CallFunction False ?c0 ?w0 =
           Done (fst (function' desc_ab (param ?c0) (heap ?w0)))
                (?w0\<lparr>heap := snd (function' desc_ab (param ?c0) (heap ?w0)),
                    invoked := invoked world_ab @ [(param ?c0, heap ?w0)]\<rparr>) \<and>
         map (deref (heap ?w0)) (param ?c0) = [Some 1, Some 2]"
    unfolding c w .
  have vals: "param ?c0 = [Some 3, Some 4]" "invoked world_ab = []"
    "heap ?w0 = [Some 1, Some 2, Some 5, Some 1, Some 2]"
    "function' desc_ab [Some 3, Some 4] [Some 1, Some 2, Some 5, Some 1, Some 2] =
       (None, [Some 1, Some 2, Some 5, Some 1, Some 2])"
    by (simp_all add: call_ab_def world_ab_def desc_ab_def stub_def)
  from both have r1: "CallFunctionObject_CallFunction False ?c0 ?w0 =
     Done None
       (world_ab\<lparr>heap := [Some 1, Some 2, Some 5, Some 1, Some 2],
          invoked := [([Some 3, Some 4], [Some 1, Some 2, Some 5, Some 1, Some 2])]\<rparr>)"
    by (simp add: vals)
  from both have r2: "map (deref [Some (1::int), Some 2, Some 5, Some 1, Some 2])
                        [Some 3, Some 4] = [Some 1, Some 2]"
    by (simp add: vals)
  from desc_ab_wf desc_ab_live desc_ab_defaults CallFunctionObject_new_ab[of False] r1 r2
  show ?thesis by - (intro conjI, assumption+)
qed

subsection \<open>Setting the current parameter\<close>

lemma delete_live:
  "live h a \<Longrightarrow> delete h a = Inr (h[a := None])"
  by (simp add: delete_def)

lemma SetCurrParam_in_range:
  assumes wf: "wf_CallFunctionObject c"
    and lo: "0 \<le> current_param_index c"
    and hi: "current_param_index c < NumParams (func_desc_obj c)"
    and lv: "case param c ! nat (current_param_index c) of
               None \<Rightarrow> True | Some a \<Rightarrow> live (heap w) a"
  shows "SetCurrParam c new_param w =
           Done () (c\<lparr>param := (param c)[nat (current_param_index c) := new_param],
                      current_param_index := current_param_index c + 1\<rparr>,
                    w\<lparr>heap := (case param c ! nat (current_param_index c) of
                                  None \<Rightarrow> heap w
                                | Some a \<Rightarrow> (heap w)[a := None])\<rparr>)"
proof -
  from wf hi have "current_param_index c < int (length (param c))"
    by (simp add: wf_CallFunctionObject_def NumParams_def)
  with lo have sub: "subscript (param c) (current_param_index c) =
                       Inr (param c ! nat (current_param_index c))"
    by (simp add: subscript_in_range)
  show ?thesis
  proof (cases "param c ! nat (current_param_index c)")
    case None
    with hi sub show ?thesis by (simp add: SetCurrParam_def)
  next
    case (Some a)
    with lv have "delete (heap w) a = Inr ((heap w)[a := None])" by (simp add: delete_live)
    with Some hi sub show ?thesis by (simp add: SetCurrParam_def)
  qed
qed

lemma FindParamName_second:
  assumes wf: "wf_FuncDescObj f" and nm: "map Name (ParamInfo f) = [a, b]" and ne: "a \<noteq> b"
  shows "FuncDescObj_FindParamName f b = Inr 1"
proof -
  have "length (map Name (ParamInfo f)) = length [a, b]" by (simp only: nm)
  then have len: "length (ParamInfo f) = 2" by simp
  have "map Name (ParamInfo f) ! 0 = [a, b] ! 0" "map Name (ParamInfo f) ! 1 = [a, b] ! 1"
    by (simp_all only: nm)
  with len have n0: "Name (ParamInfo f ! 0) = a" and n1: "Name (ParamInfo f ! 1) = b"
    by simp_all
  have "FindParamName_loop f b 0 = Inr 1"
  proof (rule FindParamName_loop_found[OF wf])
    show "1 < num_of_params f" using wf len by (simp add: wf_FuncDescObj_def)
    show "Name (ParamInfo f ! nat 1) = b" using n1 by simp
    show "\<forall>j. 0 \<le> j \<and> j < 1 \<longrightarrow> Name (ParamInfo f ! nat j) \<noteq> b"
    proof (intro allI impI)
      fix j :: int assume "0 \<le> j \<and> j < 1"
      then have "j = 0" by simp
      with n0 ne show "Name (ParamInfo f ! nat j) \<noteq> b" by simp
    qed
  qed simp_all
  then show ?thesis by (simp add: FuncDescObj_FindParamName_def)
qed

lemma bind_second_by_name:
  assumes wf: "wf_FuncDescObj f" and dl: "defaults_live f (heap w)"
    and nm: "map Name (ParamInfo f) = [''a'', ''b'']"
    and dv: "map (\<lambda>p. deref (heap w) (DefaultValue p)) (ParamInfo f) = [Some x, Some y]"
    and nv: "deref (heap w) (Some v) = Some z"
  shows "\<exists>c1 w1 c2 w2.
           CallFunctionObject_new ndebug name f w = Done c1 w1 \<and>
           CallFunctionObject_FindParamName c1 ''b'' = Inr 1 \<and>
           SetCurrParam (SetCurrParamIndex c1 1) (Some v) w1 = Done () (c2, w2) \<and>
           CallFunctionObject_CallFunction ndebug c2 w2 =
             Done (fst (function' f (param c2) (heap w2)))
                  (w2\<lparr>heap := snd (function' f (param c2) (heap w2)),
                      invoked := invoked w @ [(param c2, heap w2)]\<rparr>) \<and>
           map (deref (heap w2)) (param c2) = [Some x, Some z]"
proof -
  from CallFunctionObject_new_seeds[OF wf dl, of ndebug name]
  obtain ps h' where
    new: "CallFunctionObject_new ndebug name f w =
            Done \<lparr>func_name = name, func_desc_obj = f, param = ps, current_param_index = 0\<rparr>
                 (w\<lparr>heap := h'\<rparr>)" and
    len: "length ps = length (ParamInfo f)" and
    hle: "length (heap w) \<le> length h'" and htk: "take (length (heap w)) h' = heap w" and
    sd: "\<forall>i < length (ParamInfo f).
              slot_seeded (heap w) h' (DefaultValue (ParamInfo f ! i)) (ps ! i)" and
    ds: "distinct (filter (\<lambda>p. p \<noteq> None) ps)"
    by (elim exE conjE) (rule that, assumption+)
  let ?c1 = "\<lparr>func_name = name, func_desc_obj = f, param = ps, current_param_index = 0\<rparr>"
  let ?w1 = "w\<lparr>heap := h'\<rparr>"
  have "length (map Name (ParamInfo f)) = length [''a'', ''b'']" by (simp only: nm)
  then have l2: "length (ParamInfo f) = 2" by simp
  with len have lps: "length ps = 2" by simp
  have "map (\<lambda>p. deref (heap w) (DefaultValue p)) (ParamInfo f) ! 0 = [Some x, Some y] ! 0"
       "map (\<lambda>p. deref (heap w) (DefaultValue p)) (ParamInfo f) ! 1 = [Some x, Some y] ! 1"
    by (simp_all only: dv)
  with l2 have d0: "deref (heap w) (DefaultValue (ParamInfo f ! 0)) = Some x"
    and d1: "deref (heap w) (DefaultValue (ParamInfo f ! 1)) = Some y"
    by simp_all
  from sd l2 have s0: "slot_seeded (heap w) h' (DefaultValue (ParamInfo f ! 0)) (ps ! 0)"
    and s1: "slot_seeded (heap w) h' (DefaultValue (ParamInfo f ! 1)) (ps ! 1)"
    by simp_all
  from slot_seeded_deref[OF s0 d0] obtain a0 where p0: "ps ! 0 = Some a0"
    and r0: "deref h' (Some a0) = Some x" by (cases "ps ! 0") simp_all
  from slot_seeded_deref[OF s1 d1] obtain a1 where p1: "ps ! 1 = Some a1"
    and r1: "deref h' (Some a1) = Some y" by (cases "ps ! 1") simp_all
  have p1S: "ps ! Suc 0 = Some a1" using p1 by simp
  have ps_eq: "ps = [Some a0, Some a1]"
    using lps p0 p1 by (cases ps; cases "tl ps") auto
  from ds ps_eq have a01: "a0 \<noteq> a1" by simp
  from r0 have a0lt: "a0 < length h'" and a0v: "h' ! a0 = Some x"
    by (simp_all add: deref_def split: if_splits)
  from r1 have a1lt: "a1 < length h'" and a1v: "h' ! a1 = Some y"
    by (simp_all add: deref_def split: if_splits)
  from s1 p1 d1 have a1ge: "length (heap w) \<le> a1"
    by (cases "DefaultValue (ParamInfo f ! 1)") (simp_all add: slot_seeded_def deref_def)
  from nv have vlt: "v < length (heap w)" and vv: "heap w ! v = Some z"
    by (simp_all add: deref_def split: if_splits)
  have "take (length (heap w)) h' ! v = h' ! v" using vlt by simp
  with htk vv have hv: "h' ! v = Some z" by simp
  have va1: "v \<noteq> a1" using vlt a1ge by simp
  have find: "CallFunctionObject_FindParamName ?c1 ''b'' = Inr 1"
    using FindParamName_second[OF wf nm] by (simp add: CallFunctionObject_FindParamName_def)
  let ?cj = "SetCurrParamIndex ?c1 1"
  have wfj: "wf_CallFunctionObject ?cj"
    using wf len by (simp add: wf_CallFunctionObject_def wf_FuncDescObj_def SetCurrParamIndex_def)
  have cur: "current_param_index ?cj = 1" and pj: "param ?cj = ps"
    and fj: "func_desc_obj ?cj = f"
    by (simp_all add: SetCurrParamIndex_def)
  have hi: "current_param_index ?cj < NumParams (func_desc_obj ?cj)"
    using wf l2 by (simp add: cur fj NumParams_def wf_FuncDescObj_def)
  have lv: "case param ?cj ! nat (current_param_index ?cj) of
              None \<Rightarrow> True | Some a \<Rightarrow> live (heap ?w1) a"
    using a1lt a1v by (simp add: cur pj p1S live_def)
  let ?c2 = "?cj\<lparr>param := ps[1 := Some v], current_param_index := 2\<rparr>"
  let ?w2 = "?w1\<lparr>heap := h'[a1 := None]\<rparr>"
  have "SetCurrParam ?cj (Some v) ?w1 =
          Done () (?cj\<lparr>param := (param ?cj)[nat (current_param_index ?cj) := Some v],
                      current_param_index := current_param_index ?cj + 1\<rparr>,
                   ?w1\<lparr>heap := (case param ?cj ! nat (current_param_index ?cj) of
                                  None \<Rightarrow> heap ?w1
                                | Some a \<Rightarrow> (heap ?w1)[a := None])\<rparr>)"
    by (rule SetCurrParam_in_range[OF wfj _ hi lv]) (simp add: cur)
  then have bind: "SetCurrParam ?cj (Some v) ?w1 = Done () (?c2, ?w2)"
    by (simp add: cur pj p1S)
  have p2: "param ?c2 = [Some a0, Some v]" using ps_eq by simp
  have wf2: "wf_CallFunctionObject ?c2"
    using wf l2 by (simp add: wf_CallFunctionObject_def wf_FuncDescObj_def SetCurrParamIndex_def lps)
  have nn: "None \<notin> set (param ?c2)" by (simp only: p2) simp
  have f2: "func_desc_obj ?c2 = f" and i2: "invoked ?w2 = invoked w"
    by (simp_all add: SetCurrParamIndex_def)
  have call: "CallFunctionObject_CallFunction ndebug ?c2 ?w2 =
             Done (fst (function' f (param ?c2) (heap ?w2)))
                  (?w2\<lparr>heap := snd (function' f (param ?c2) (heap ?w2)),
                      invoked := invoked w @ [(param ?c2, heap ?w2)]\<rparr>)"
    using CallFunction_all_filled[OF wf2 nn, of ndebug ?w2] by (simp only: f2 i2)
  have hp: "heap ?w2 = h'[a1 := None]" by simp
  have m: "map (deref (h'[a1 := None])) [Some a0, Some v] = [Some x, Some z]"
    using a01 a0lt a0v vlt hle hv va1 by (simp add: deref_def)
  have vals: "map (deref (heap ?w2)) (param ?c2) = [Some x, Some z]"
    by (simp only: p2 hp m)
  show ?thesis
    by (intro exI conjI) (rule new, rule find, rule bind, rule call, rule vals)
qed

text \<open>
  Claim C4, as amended: for a well-formed call object whose current index is at least 0
  and below the number of parameters, and whose slot at that index is null or points to a
  live object (one not deleted already), \<open>SetCurrParam\<close> deletes the object the slot
  points to, stores the new pointer in the slot, adds one to the current index and leaves
  the other slots and the other objects as they were. For the parameters a and b with
  defaults holding 1 and 2: constructing the call object, moving to the index
  \<open>FindParamName\<close> returns for b, setting a value that holds 5 and calling
  \<open>CallFunction\<close> is the call of the entry point of the descriptor on the slots, which
  hold 1 and 5: it returns what the entry point returns on them, leaves the free store as
  the entry point leaves it, and enters that one call into the log.
\<close>

theorem SetCurrParam_binds:
  assumes "wf_CallFunctionObject c"
    and "0 \<le> current_param_index c"
    and "current_param_index c < NumParams (func_desc_obj c)"
    and "case param c ! nat (current_param_index c) of
           None \<Rightarrow> True | Some a \<Rightarrow> live (heap w) a"
  shows "SetCurrParam c new_param w =
           Done () (c\<lparr>param := (param c)[nat (current_param_index c) := new_param],
                      current_param_index := current_param_index c + 1\<rparr>,
                    w\<lparr>heap := (case param c ! nat (current_param_index c) of
                                  None \<Rightarrow> heap w
                                | Some a \<Rightarrow> (heap w)[a := None])\<rparr>) \<and>
         (param c)[nat (current_param_index c) := new_param] ! nat (current_param_index c) =
           new_param \<and>
         (\<forall>j. j \<noteq> nat (current_param_index c) \<longrightarrow>
              (param c)[nat (current_param_index c) := new_param] ! j = param c ! j) \<and>
         (\<forall>a. param c ! nat (current_param_index c) = Some a \<longrightarrow>
              \<not> live ((heap w)[a := None]) a \<and>
              (\<forall>b. b \<noteq> a \<longrightarrow> (heap w)[a := None] ! b = heap w ! b)) \<and>
         (wf_FuncDescObj f \<and> defaults_live f (heap u) \<and>
          map Name (ParamInfo f) = [''a'', ''b''] \<and>
          map (\<lambda>p. deref (heap u) (DefaultValue p)) (ParamInfo f) = [Some 1, Some 2] \<and>
          deref (heap u) (Some v) = Some (5::int) \<longrightarrow>
          (\<exists>c1 w1 c2 w2.
             CallFunctionObject_new ndebug name f u = Done c1 w1 \<and>
             CallFunctionObject_FindParamName c1 ''b'' = Inr 1 \<and>
             SetCurrParam (SetCurrParamIndex c1 1) (Some v) w1 = Done () (c2, w2) \<and>
             CallFunctionObject_CallFunction ndebug c2 w2 =
               Done (fst (function' f (param c2) (heap w2)))
                    (w2\<lparr>heap := snd (function' f (param c2) (heap w2)),
                        invoked := invoked u @ [(param c2, heap w2)]\<rparr>) \<and>
             map (deref (heap w2)) (param c2) = [Some 1, Some 5]))"
proof (intro conjI allI impI)
  show "SetCurrParam c new_param w =
           Done () (c\<lparr>param := (param c)[nat (current_param_index c) := new_param],
                      current_param_index := current_param_index c + 1\<rparr>,
                    w\<lparr>heap := (case param c ! nat (current_param_index c) of
                                  None \<Rightarrow> heap w
                                | Some a \<Rightarrow> (heap w)[a := None])\<rparr>)"
    using assms by (rule SetCurrParam_in_range)
  from assms(1,3) have "current_param_index c < int (length (param c))"
    by (simp add: wf_CallFunctionObject_def NumParams_def)
  with assms(2) have "nat (current_param_index c) < length (param c)" by simp
  then show "(param c)[nat (current_param_index c) := new_param] !
               nat (current_param_index c) = new_param"
    by simp
next
  fix j assume "j \<noteq> nat (current_param_index c)"
  then show "(param c)[nat (current_param_index c) := new_param] ! j = param c ! j"
    by simp
next
  fix a assume "param c ! nat (current_param_index c) = Some a"
  with assms(4) have "a < length (heap w)" by (simp add: live_def)
  then show "\<not> live ((heap w)[a := None]) a" by (simp add: live_def)
next
  fix a b :: nat assume "b \<noteq> a"
  then show "(heap w)[a := None] ! b = heap w ! b" by simp
next
  assume ex: "wf_FuncDescObj f \<and> defaults_live f (heap u) \<and>
          map Name (ParamInfo f) = [''a'', ''b''] \<and>
          map (\<lambda>p. deref (heap u) (DefaultValue p)) (ParamInfo f) = [Some 1, Some 2] \<and>
          deref (heap u) (Some v) = Some (5::int)"
  then have e1: "wf_FuncDescObj f" and e2: "defaults_live f (heap u)"
    and e3: "map Name (ParamInfo f) = [''a'', ''b'']"
    and e4: "map (\<lambda>p. deref (heap u) (DefaultValue p)) (ParamInfo f) = [Some 1, Some 2]"
    and e5: "deref (heap u) (Some v) = Some 5"
    by simp_all
  show "\<exists>c1 w1 c2 w2.
             CallFunctionObject_new ndebug name f u = Done c1 w1 \<and>
             CallFunctionObject_FindParamName c1 ''b'' = Inr 1 \<and>
             SetCurrParam (SetCurrParamIndex c1 1) (Some v) w1 = Done () (c2, w2) \<and>
             CallFunctionObject_CallFunction ndebug c2 w2 =
               Done (fst (function' f (param c2) (heap w2)))
                    (w2\<lparr>heap := snd (function' f (param c2) (heap w2)),
                        invoked := invoked u @ [(param c2, heap w2)]\<rparr>) \<and>
             map (deref (heap w2)) (param c2) = [Some 1, Some 5]"
    by (rule bind_second_by_name[OF e1 e2 e3 e4 e5])
qed

theorem SetCurrParam_binds_witness:
  "wf_CallFunctionObject (call_ab [Some 3, Some 4] 1) \<and>
   0 \<le> current_param_index (call_ab [Some 3, Some 4] 1) \<and>
   current_param_index (call_ab [Some 3, Some 4] 1) <
     NumParams (func_desc_obj (call_ab [Some 3, Some 4] 1)) \<and>
   live [Some (1::int), Some 2, Some 5, Some 1, Some 2] 4 \<and>
   SetCurrParam (call_ab [Some 3, Some 4] 1) (Some 2)
       (world_ab\<lparr>heap := [Some 1, Some 2, Some 5, Some 1, Some 2]\<rparr>) =
     Done () (call_ab [Some 3, Some 2] 2,
              world_ab\<lparr>heap := [Some 1, Some 2, Some 5, Some 1, None]\<rparr>) \<and>
   map (deref [Some (1::int), Some 2, Some 5, Some 1, None]) [Some 3, Some 2] =
     [Some 1, Some 5] \<and>
   wf_FuncDescObj desc_ab \<and> defaults_live desc_ab (heap world_ab) \<and>
   map Name (ParamInfo desc_ab) = [''a'', ''b''] \<and>
   map (\<lambda>p. deref (heap world_ab) (DefaultValue p)) (ParamInfo desc_ab) = [Some 1, Some 2] \<and>
   deref (heap world_ab) (Some 2) = Some 5 \<and>
   (\<exists>c1 w1 c2 w2.
      CallFunctionObject_new False ''f'' desc_ab world_ab = Done c1 w1 \<and>
      CallFunctionObject_FindParamName c1 ''b'' = Inr 1 \<and>
      SetCurrParam (SetCurrParamIndex c1 1) (Some 2) w1 = Done () (c2, w2) \<and>
      CallFunctionObject_CallFunction False c2 w2 =
        Done (fst (function' desc_ab (param c2) (heap w2)))
             (w2\<lparr>heap := snd (function' desc_ab (param c2) (heap w2)),
                 invoked := invoked world_ab @ [(param c2, heap w2)]\<rparr>) \<and>
      map (deref (heap w2)) (param c2) = [Some 1, Some 5])"
proof -
  let ?c = "call_ab [Some 3, Some 4] 1"
  let ?w = "world_ab\<lparr>heap := [Some 1, Some 2, Some 5, Some 1, Some 2]\<rparr>"
  have h1: "wf_CallFunctionObject ?c"
    by (simp add: wf_CallFunctionObject_def wf_FuncDescObj_def call_ab_def desc_ab_def)
  have h2: "0 \<le> current_param_index ?c" by (simp add: call_ab_def)
  have h3: "current_param_index ?c < NumParams (func_desc_obj ?c)"
    by (simp add: call_ab_def desc_ab_def NumParams_def)
  have l4: "live [Some (1::int), Some 2, Some 5, Some 1, Some 2] 4" by (simp add: live_def)
  have h4: "case param ?c ! nat (current_param_index ?c) of
              None \<Rightarrow> True | Some a \<Rightarrow> live (heap ?w) a"
    using l4 by (simp add: call_ab_def)
  have e3: "map Name (ParamInfo desc_ab) = [''a'', ''b'']" by (simp add: desc_ab_def)
  have e5: "deref (heap world_ab) (Some 2) = Some 5" by (simp add: deref_def world_ab_def)
  note inst = SetCurrParam_binds[OF h1 h2 h3 h4, where new_param = "Some 2" and f = desc_ab
      and u = world_ab and v = 2 and ndebug = False and name = "''f''"]
  from inst have "SetCurrParam ?c (Some 2) ?w =
           Done () (?c\<lparr>param := (param ?c)[nat (current_param_index ?c) := Some 2],
                      current_param_index := current_param_index ?c + 1\<rparr>,
                    ?w\<lparr>heap := (case param ?c ! nat (current_param_index ?c) of
                                  None \<Rightarrow> heap ?w
                                | Some a \<Rightarrow> (heap ?w)[a := None])\<rparr>)"
    by (rule conjunct1)
  then have r1: "SetCurrParam ?c (Some 2) ?w =
     Done () (call_ab [Some 3, Some 2] 2,
              world_ab\<lparr>heap := [Some 1, Some 2, Some 5, Some 1, None]\<rparr>)"
    by (simp add: call_ab_def)
  have r2: "map (deref [Some (1::int), Some 2, Some 5, Some 1, None]) [Some 3, Some 2] =
     [Some 1, Some 5]"
    by (simp add: deref_def)
  from inst have "wf_FuncDescObj desc_ab \<and> defaults_live desc_ab (heap world_ab) \<and>
          map Name (ParamInfo desc_ab) = [''a'', ''b''] \<and>
          map (\<lambda>p. deref (heap world_ab) (DefaultValue p)) (ParamInfo desc_ab) =
            [Some 1, Some 2] \<and>
          deref (heap world_ab) (Some 2) = Some (5::int) \<longrightarrow>
          (\<exists>c1 w1 c2 w2.
             CallFunctionObject_new False ''f'' desc_ab world_ab = Done c1 w1 \<and>
             CallFunctionObject_FindParamName c1 ''b'' = Inr 1 \<and>
             SetCurrParam (SetCurrParamIndex c1 1) (Some 2) w1 = Done () (c2, w2) \<and>
             CallFunctionObject_CallFunction False c2 w2 =
               Done (fst (function' desc_ab (param c2) (heap w2)))
                    (w2\<lparr>heap := snd (function' desc_ab (param c2) (heap w2)),
                        invoked := invoked world_ab @ [(param c2, heap w2)]\<rparr>) \<and>
             map (deref (heap w2)) (param c2) = [Some 1, Some 5])"
    by (elim conjE)
  moreover have "wf_FuncDescObj desc_ab \<and> defaults_live desc_ab (heap world_ab) \<and>
          map Name (ParamInfo desc_ab) = [''a'', ''b''] \<and>
          map (\<lambda>p. deref (heap world_ab) (DefaultValue p)) (ParamInfo desc_ab) =
            [Some 1, Some 2] \<and>
          deref (heap world_ab) (Some 2) = Some (5::int)"
    using desc_ab_wf desc_ab_live e3 desc_ab_defaults e5 by (intro conjI)
  ultimately have r3: "\<exists>c1 w1 c2 w2.
             CallFunctionObject_new False ''f'' desc_ab world_ab = Done c1 w1 \<and>
             CallFunctionObject_FindParamName c1 ''b'' = Inr 1 \<and>
             SetCurrParam (SetCurrParamIndex c1 1) (Some 2) w1 = Done () (c2, w2) \<and>
             CallFunctionObject_CallFunction False c2 w2 =
               Done (fst (function' desc_ab (param c2) (heap w2)))
                    (w2\<lparr>heap := snd (function' desc_ab (param c2) (heap w2)),
                        invoked := invoked world_ab @ [(param c2, heap w2)]\<rparr>) \<and>
             map (deref (heap w2)) (param c2) = [Some 1, Some 5]"
    by (rule mp)
  show ?thesis
    using h1 h2 h3 l4 r1 r2 desc_ab_wf desc_ab_live e3 desc_ab_defaults e5 r3
    by (intro conjI)
qed

text \<open>
  Claim C4 as stated takes every current index below the number of parameters to be in
  range, and every call object with such an index to be one \<open>SetCurrParam\<close> can bind.
  It fails in two ways. \<open>FindParamName\<close> returns \<open>-1\<close> for a name that is not declared
  and \<open>SetCurrParamIndex\<close> accepts it; \<open>-1\<close> is below the number of parameters, and
  \<open>SetCurrParam\<close> then reads \<open>param[-1]\<close>, outside the array of slots: no slot receives
  the value. And a slot may point to an object that is deleted already: setting slot 0 to
  the pointer it holds deletes the object and stores the pointer again; back at index 0,
  which is in range, the next \<open>SetCurrParam\<close> deletes through that pointer a second time.
\<close>

theorem SetCurrParam_binds_counterexample:
  "CallFunctionObject_FindParamName (call_ab [Some 3, Some 4] 0) ''c'' = Inr (- 1) \<and>
   current_param_index (SetCurrParamIndex (call_ab [Some 3, Some 4] 0) (- 1)) <
     NumParams (func_desc_obj (SetCurrParamIndex (call_ab [Some 3, Some 4] 0) (- 1))) \<and>
   SetCurrParam (SetCurrParamIndex (call_ab [Some 3, Some 4] 0) (- 1)) (Some 2)
       (world_ab\<lparr>heap := [Some 1, Some 2, Some 5, Some 1, Some 2]\<rparr>) =
     Abort UndefinedBehaviour
       (SetCurrParamIndex (call_ab [Some 3, Some 4] 0) (- 1),
        world_ab\<lparr>heap := [Some 1, Some 2, Some 5, Some 1, Some 2]\<rparr>) \<and>
   SetCurrParam (call_ab [Some 3, Some 4] 0) (Some 3)
       (world_ab\<lparr>heap := [Some 1, Some 2, Some 5, Some 1, Some 2]\<rparr>) =
     Done () (call_ab [Some 3, Some 4] 1,
              world_ab\<lparr>heap := [Some 1, Some 2, Some 5, None, Some 2]\<rparr>) \<and>
   SetCurrParamIndex (call_ab [Some 3, Some 4] 1) 0 = call_ab [Some 3, Some 4] 0 \<and>
   wf_CallFunctionObject (call_ab [Some 3, Some 4] 0) \<and>
   0 \<le> current_param_index (call_ab [Some 3, Some 4] 0) \<and>
   current_param_index (call_ab [Some 3, Some 4] 0) <
     NumParams (func_desc_obj (call_ab [Some 3, Some 4] 0)) \<and>
   SetCurrParam (call_ab [Some 3, Some 4] 0) (Some 2)
       (world_ab\<lparr>heap := [Some 1, Some 2, Some 5, None, Some 2]\<rparr>) =
     Abort UndefinedBehaviour
       (call_ab [Some 3, Some 4] 0,
        world_ab\<lparr>heap := [Some 1, Some 2, Some 5, None, Some 2]\<rparr>)"
proof (intro conjI)
  have "''c'' \<notin> set (map Name (ParamInfo desc_ab))" by (simp add: desc_ab_def)
  then have "FuncDescObj_FindParamName desc_ab ''c'' = Inr (- 1)"
    by (rule FindParamName_absent[OF desc_ab_wf])
  then show "CallFunctionObject_FindParamName (call_ab [Some 3, Some 4] 0) ''c'' = Inr (- 1)"
    by (simp add: CallFunctionObject_FindParamName_def call_ab_def)
  show "wf_CallFunctionObject (call_ab [Some 3, Some 4] 0)"
    by (simp add: wf_CallFunctionObject_def wf_FuncDescObj_def call_ab_def desc_ab_def)
qed (simp_all add: SetCurrParam_def SetCurrParamIndex_def call_ab_def desc_ab_def NumParams_def
       subscript_def delete_def live_def world_ab_def)

subsection \<open>Well-formedness is established and kept\<close>

text \<open>
  The constructors return well-formed objects and the member functions keep them
  well-formed, so the well-formedness assumed above holds of every object the code
  builds; and a \<open>SetParamInfo\<close> that aborts has not changed the descriptor.
\<close>

lemma FuncDescObj_new_wf:
  "FuncDescObj_new ndebug blank funcname n = Inr f \<Longrightarrow> wf_FuncDescObj f"
  by (auto simp: FuncDescObj_new_def wf_FuncDescObj_def split: if_splits)

lemma SetParamInfo_wf:
  "wf_FuncDescObj f \<Longrightarrow>
   SetParamInfo ndebug f index name type default_value w = Done () (f', w') \<Longrightarrow>
   wf_FuncDescObj f'"
  by (auto simp: SetParamInfo_def wf_FuncDescObj_def split: if_splits sum.splits)

lemma SetParamInfo_abort_unchanged:
  "SetParamInfo ndebug f index name type default_value w = Abort e (f', w') \<Longrightarrow> f' = f"
  by (auto simp: SetParamInfo_def split: if_splits sum.splits)

lemma CallFunctionObject_new_wf:
  assumes "wf_FuncDescObj f" and "defaults_live f (heap w)"
    and "CallFunctionObject_new ndebug name f w = Done c w'"
  shows "wf_CallFunctionObject c"
proof -
  from CallFunctionObject_new_seeds[OF assms(1,2), of ndebug name]
  obtain ps h' where
    "CallFunctionObject_new ndebug name f w =
       Done \<lparr>func_name = name, func_desc_obj = f, param = ps, current_param_index = 0\<rparr>
            (w\<lparr>heap := h'\<rparr>)"
    and "length ps = length (ParamInfo f)"
    by (elim exE conjE) (rule that, assumption+)
  with assms(1,3) show ?thesis
    by (auto simp: wf_CallFunctionObject_def wf_FuncDescObj_def)
qed

lemma SetCurrParam_wf:
  "wf_CallFunctionObject c \<Longrightarrow> SetCurrParam c new_param w = Done () (c', w') \<Longrightarrow>
   wf_CallFunctionObject c'"
  by (auto simp: SetCurrParam_def wf_CallFunctionObject_def split: if_splits sum.splits option.splits)

lemma SetCurrParamIndex_wf:
  "wf_CallFunctionObject c \<Longrightarrow> wf_CallFunctionObject (SetCurrParamIndex c index)"
  by (simp add: SetCurrParamIndex_def wf_CallFunctionObject_def)

end
